theory Spec2Isabelle
  imports Main
begin

section \<open>The startup path of influxd (cmd/influxd/run.go)\<close>

text \<open>
  The file run.go wires a broker, its raft log, a messaging client and a data server
  together. Everything it does is a call into a collaborator (the raft log, the broker,
  the messaging client, the server, the operating system) or a call of the logger.
  The embedding makes these calls explicit:
  \<^item> every call appends an \<open>event\<close> to a trace; an event of a call that returns a Go
    \<open>error\<close> carries that result (\<open>None\<close> is \<open>nil\<close>);
  \<^item> the result of a collaborator call is read from an environment \<open>env\<close>, as a function
    of the history of events so far, so that a collaborator may answer differently each
    time it is called;
  \<^item> \<open>log.Fatal\<close> and \<open>log.Fatalf\<close> print and then end the process (\<open>os.Exit(1)\<close>): the
    outcome \<open>Exit\<close>, after which nothing of the caller runs.
\<close>

subsection \<open>Data\<close>

type_synonym url = string
type_synonym error = string

datatype stat_error = ErrNotExist | ErrOther string

text \<open>
  The events. \<open>LogPrintf\<close> and \<open>LogFatal\<close> are the logger's, with the format string
  only. \<open>LogSetURL\<close> to \<open>LogJoin\<close> are what \<open>openBroker\<close> does to the raft log and the
  broker, \<open>ClientNew\<close> to \<open>ServerJoin\<close> what \<open>openServer\<close> does to the messaging client
  and the server. \<open>Call\<close> is any other call that returns an error, \<open>Invoke\<close> a call
  that returns none, both named by the Go expression; \<open>Spawn\<close> is a \<open>go\<close> statement.
  The fields that \<open>openServer\<close> copies from the configuration to the server
  (\<open>s.WriteTrace\<close> and the like) are not events.
\<close>

datatype event =
    LogPrintf string
  | LogFatal string
  | LogSetURL url
  | LogSetDebug bool
  | BrokerOpen string "error option"
  | LogOpen string "error option"
  | LogInitialize "error option"
  | LogJoin url "error option"
  | ClientNew url
  | ClientSetURLs "url list"
  | ClientOpen string "error option"
  | ClientURLs "url list"
  | ServerOpen string "error option"
  | ServerInitialize url "error option"
  | ServerJoin url url "error option"
  | NetListen string "error option"
  | Call string "error option"
  | Invoke string
  | Spawn string

datatype 'a outcome = Return 'a | Exit

text \<open>
  A procedure takes the history and gives its outcome and the events it has emitted
  itself, in order.
\<close>

type_synonym 'a proc = "event list \<Rightarrow> 'a outcome \<times> event list"

record Graphite =
  Enabled :: bool
  Protocol :: string

text \<open>
  The type \<open>Config\<close> is declared outside run.go. Its fields and the results of its
  methods that run.go reads are the fields of this record.
\<close>

record Config =
  Hostname :: string
  BrokerDir :: string
  DataDir :: string
  Data_Dir :: string
  JoinURLs :: string
  BrokerURL :: url
  DataURL :: url
  BrokerAddr :: string
  SnapshotAddr :: string
  DataAddrUDP :: string
  Logging_RaftTracing :: bool
  Authentication_Enabled :: bool
  ContinuousQuery_Disable :: bool
  Data_RetentionCheckEnabled :: bool
  Snapshot_Enabled :: bool
  Admin_Enabled :: bool
  Collectd_Enabled :: bool
  UDP_Enabled :: bool
  Graphites :: "Graphite list"
  OpenTSDB_Enabled :: bool
  OpenTSDB_RetentionPolicy :: string
  Monitoring_Enabled :: bool
  ReportingDisabled :: bool

text \<open>
  The collaborators, and the constant \<open>messagingClientFile\<close> that another file of
  the package declares. \<open>Broker_URL\<close> is \<open>b.URL()\<close>, \<open>Client_URLs\<close> is \<open>c.URLs()\<close>,
  \<open>Service\<close> answers the calls that start the listeners and background loops, named by
  the Go expression called.
\<close>

record env =
  os_Stat :: "string \<Rightarrow> stat_error option"
  url_Parse :: "string \<Rightarrow> error + url"
  filepath_Join :: "string \<Rightarrow> string \<Rightarrow> string"
  messagingClientFile :: string
  NewConfig :: "error + Config"
  ParseConfigFile :: "string \<Rightarrow> error + Config"
  Broker_Open :: "event list \<Rightarrow> string \<Rightarrow> error option"
  Broker_URL :: "event list \<Rightarrow> url"
  Broker_ClusterID :: "event list \<Rightarrow> nat"
  Log_Open :: "event list \<Rightarrow> string \<Rightarrow> error option"
  Log_Initialize :: "event list \<Rightarrow> error option"
  Log_Join :: "event list \<Rightarrow> url \<Rightarrow> error option"
  Client_Open :: "event list \<Rightarrow> string \<Rightarrow> error option"
  Client_URLs :: "event list \<Rightarrow> url list"
  Server_Open :: "event list \<Rightarrow> string \<Rightarrow> error option"
  Server_Initialize :: "event list \<Rightarrow> url \<Rightarrow> error option"
  Server_Join :: "event list \<Rightarrow> url \<Rightarrow> url \<Rightarrow> error option"
  net_Listen :: "event list \<Rightarrow> string \<Rightarrow> error option"
  Service :: "event list \<Rightarrow> string \<Rightarrow> error option"

subsection \<open>Sequencing\<close>

definition ret :: "'a \<Rightarrow> 'a proc" where
  "ret x = (\<lambda>h. (Return x, []))"

definition andThen :: "'a proc \<Rightarrow> ('a \<Rightarrow> 'b proc) \<Rightarrow> 'b proc" where
  "andThen m f = (\<lambda>h. case m h of
       (Exit, es) \<Rightarrow> (Exit, es)
     | (Return x, es) \<Rightarrow> (case f x (h @ es) of (r, es') \<Rightarrow> (r, es @ es')))"

definition emit :: "event \<Rightarrow> unit proc" where
  "emit e = (\<lambda>h. (Return (), [e]))"

definition printf :: "string \<Rightarrow> unit proc" where
  "printf msg = emit (LogPrintf msg)"

definition fatal :: "string \<Rightarrow> 'a proc" where
  "fatal msg = (\<lambda>h. (Exit, [LogFatal msg]))"

text \<open>A call whose result the environment gives, recorded with that result.\<close>

definition call :: "(event list \<Rightarrow> 'r) \<Rightarrow> ('r \<Rightarrow> event) \<Rightarrow> 'r proc" where
  "call answer ev = (\<lambda>h. (Return (answer h), [ev (answer h)]))"

subsection \<open>fileExists, parseURLs, parseConfig\<close>

text \<open>
  \<open>fileExists\<close>: false exactly when \<open>os.Stat\<close> fails with a not-exist error; any other
  error counts as existing.
\<close>

definition fileExists :: "env \<Rightarrow> string \<Rightarrow> bool" where
  "fileExists E path = (if os_Stat E path = Some ErrNotExist then False else True)"

text \<open>\<open>strings.Split(s, ",")\<close>: the fields between the separators, empty ones included.\<close>

fun strings_Split :: "string \<Rightarrow> char \<Rightarrow> string list" where
  "strings_Split [] sep = [[]]"
| "strings_Split (c # cs) sep =
     (if c = sep then [] # strings_Split cs sep
      else (case strings_Split cs sep of
              [] \<Rightarrow> [[c]]
            | w # ws \<Rightarrow> (c # w) # ws))"

fun parseURLs_loop :: "env \<Rightarrow> string list \<Rightarrow> url list \<Rightarrow> url list proc" where
  "parseURLs_loop E [] a = ret a"
| "parseURLs_loop E (s # ss) a =
     (case url_Parse E s of
        Inl err \<Rightarrow> fatal ''cannot parse urls: %s''
      | Inr u \<Rightarrow> parseURLs_loop E ss (a @ [u]))"

definition parseURLs :: "env \<Rightarrow> string \<Rightarrow> url list proc" where
  "parseURLs E s =
     (if s = [] then ret []
      else parseURLs_loop E (strings_Split s (CHR '','')) [])"

definition parseConfig :: "env \<Rightarrow> string \<Rightarrow> string \<Rightarrow> error + Config" where
  "parseConfig E path hostname =
     (if path = [] then
        (case NewConfig E of
           Inl err \<Rightarrow> Inl (''failed to generate default config: '' @ err @
                            ''. Please supply an explicit configuration file'')
         | Inr c \<Rightarrow> Inr c)
      else
        (case ParseConfigFile E path of
           Inl err \<Rightarrow> Inl (''config: '' @ err)
         | Inr config \<Rightarrow>
             Inr (if hostname \<noteq> [] then config\<lparr>Hostname := hostname\<rparr> else config)))"

subsection \<open>The broker and its raft log\<close>

fun joinLog :: "env \<Rightarrow> url list \<Rightarrow> unit proc" where
  "joinLog E [] = fatal ''join: failed to connect raft log to any specified server''"
| "joinLog E (u # us) =
     andThen (call (\<lambda>h. Log_Join E h u) (LogJoin u)) (\<lambda>err.
       if err \<noteq> None then
         andThen (printf ''join: failed to connect to raft cluster: %s: %s'') (\<lambda>_.
           joinLog E us)
       else
         printf ''join: connected raft log to %s'')"

definition openBroker :: "env \<Rightarrow> string \<Rightarrow> url \<Rightarrow> bool \<Rightarrow> url list \<Rightarrow> bool \<Rightarrow> unit proc" where
  "openBroker E path u initializing joinURLs raftTracing =
     andThen (emit (LogSetURL u)) (\<lambda>_.
     andThen (emit (LogSetDebug raftTracing)) (\<lambda>_.
     andThen (call (\<lambda>h. Broker_Open E h path) (BrokerOpen path)) (\<lambda>err.
     if err \<noteq> None then fatal ''failed to open broker at %s : %s'' else
     andThen (printf ''broker opened at %s'') (\<lambda>_.
     andThen (call (\<lambda>h. Log_Open E h (filepath_Join E path ''raft''))
                   (LogOpen (filepath_Join E path ''raft''))) (\<lambda>err.
     if err \<noteq> None then fatal ''raft: %s'' else
     if initializing then
       (if length joinURLs = 0 then
          andThen (call (Log_Initialize E) LogInitialize) (\<lambda>err.
            if err \<noteq> None then fatal ''initialize raft log: %s'' else ret ())
        else joinLog E joinURLs)
     else ret ())))))"

subsection \<open>The data server\<close>

fun joinServer :: "env \<Rightarrow> url \<Rightarrow> url list \<Rightarrow> unit proc" where
  "joinServer E u [] = fatal ''join: failed to connect data node to any specified server''"
| "joinServer E u (joinURL # rest) =
     andThen (call (\<lambda>h. Server_Join E h u joinURL) (ServerJoin u joinURL)) (\<lambda>err.
       if err \<noteq> None then
         andThen (printf ''join: failed to connect data node: %s: %s'') (\<lambda>_.
           joinServer E u rest)
       else
         printf ''join: connected data node to %s'')"

definition openServer :: "env \<Rightarrow> Config \<Rightarrow> bool \<Rightarrow> bool \<Rightarrow> url list \<Rightarrow> unit proc" where
  "openServer E config initServer initBroker joinURLs =
     andThen (\<lambda>h. (Return (if length joinURLs = 0 then [Broker_URL E h] else joinURLs), []))
       (\<lambda>clientJoinURLs.
     andThen (emit (ClientNew (DataURL config))) (\<lambda>_.
     andThen (emit (ClientSetURLs clientJoinURLs)) (\<lambda>_.
     andThen (call (\<lambda>h. Client_Open E h (filepath_Join E (Data_Dir config) (messagingClientFile E)))
                   (ClientOpen (filepath_Join E (Data_Dir config) (messagingClientFile E)))) (\<lambda>err.
     if err \<noteq> None then fatal ''messaging client error: %s'' else
     andThen (call (Client_URLs E) ClientURLs) (\<lambda>urls.
     if length urls = 0 then fatal ''messaging client has no broker URLs'' else
     andThen (call (\<lambda>h. Server_Open E h (Data_Dir config)) (ServerOpen (Data_Dir config))) (\<lambda>err.
     if err \<noteq> None then fatal ''failed to open data server: %v'' else
     andThen (printf ''data server opened at %s'') (\<lambda>_.
     if initServer then
       (if length joinURLs = 0 then
          (if initBroker then
             andThen (\<lambda>h. (Return (Broker_URL E h), [])) (\<lambda>bu.
             andThen (call (\<lambda>h. Server_Initialize E h bu) (ServerInitialize bu)) (\<lambda>err.
               if err \<noteq> None then fatal ''server initialization error: %s'' else ret ()))
           else ret ())
        else joinServer E (DataURL config) joinURLs)
     else ret ())))))))"

subsection \<open>Run\<close>

text \<open>
  \<open>service\<close> is a call of one of the listeners and loops that \<open>Run\<close> starts once the
  broker and the server are open; \<open>must\<close> is such a call followed by \<open>log.Fatalf\<close> when
  it returns an error. A \<open>go\<close> statement is the event \<open>Spawn\<close>: what the goroutine does
  later is outside this model. The body of \<open>Run\<close> is long, so it is cut into its phases,
  each a definition of its own named after \<open>Run\<close>.
\<close>

definition service :: "env \<Rightarrow> string \<Rightarrow> error option proc" where
  "service E name = call (\<lambda>h. Service E h name) (Call name)"

definition must :: "env \<Rightarrow> string \<Rightarrow> string \<Rightarrow> unit proc" where
  "must E name msg =
     andThen (service E name) (\<lambda>err. if err \<noteq> None then fatal msg else ret ())"

fun Run_graphites :: "env \<Rightarrow> Graphite list \<Rightarrow> unit proc" where
  "Run_graphites E [] = ret ()"
| "Run_graphites E (c # cs) =
     (if \<not> Enabled c then Run_graphites E cs
      else
        andThen (must E ''s.CreateDatabaseIfNotExists''
                   ''failed to create database for %s Graphite server: %s'') (\<lambda>_.
        andThen (must E ''graphite.NewServer''
                   ''failed to initialize %s Graphite server: %s'') (\<lambda>_.
        andThen (must E ''g.ListenAndServe''
                   ''failed to start %s Graphite server: %s'') (\<lambda>_.
        Run_graphites E cs))))"

text \<open>
  The block of \<open>Run\<close> under \<open>if s != nil\<close>. The server that \<open>openServer\<close> returns is the
  one \<open>influxdb.NewServer()\<close> made, never nil, so the block always runs.
\<close>

definition Run_services :: "env \<Rightarrow> Config \<Rightarrow> unit proc" where
  "Run_services E config =
     andThen (if Snapshot_Enabled config then
                andThen (emit (Spawn ''http.ListenAndServe(config.SnapshotAddr(), ...)'')) (\<lambda>_.
                  printf ''snapshot endpoint listening on %s'')
              else printf ''snapshot endpoint disabled'') (\<lambda>_.
     andThen (if Admin_Enabled config then
                andThen (printf ''starting admin server on %s'') (\<lambda>_.
                andThen (emit (Invoke ''admin.NewServer'')) (\<lambda>_.
                  emit (Spawn ''a.ListenAndServe()'')))
              else ret ()) (\<lambda>_.
     andThen (if Collectd_Enabled config then
                andThen (service E ''collectd.ListenAndServe'') (\<lambda>err.
                  if err \<noteq> None then printf ''failed to start collectd Server: %v''
                  else ret ())
              else ret ()) (\<lambda>_.
     andThen (if UDP_Enabled config then
                andThen (printf ''Starting UDP listener on %s'') (\<lambda>_.
                andThen (service E ''u.ListenAndServe'') (\<lambda>err.
                  if err \<noteq> None then printf ''Failed to start UDP listener on %s: %s''
                  else ret ()))
              else ret ()) (\<lambda>_.
     andThen (Run_graphites E (Graphites config)) (\<lambda>_.
     andThen (if OpenTSDB_Enabled config then
                andThen (must E ''s.CreateDatabaseIfNotExists''
                           ''failed to create database for OpenTSDB server: %s'') (\<lambda>_.
                andThen (if OpenTSDB_RetentionPolicy config \<noteq> [] then
                           must E ''s.CreateRetentionPolicyIfNotExists''
                             ''failed to create retention policy for OpenTSDB: %s''
                         else ret ()) (\<lambda>_.
                andThen (printf ''Starting OpenTSDB service on'') (\<lambda>_.
                  emit (Spawn ''os.ListenAndServe(laddr)''))))
              else ret ()) (\<lambda>_.
     if Monitoring_Enabled config then
       andThen (must E ''s.CreateDatabaseIfNotExists''
                  ''failed to create database %s for internal monitoring: %s'') (\<lambda>_.
       andThen (must E ''s.CreateRetentionPolicyIfNotExists''
                  ''failed to create retention policy for internal monitoring: %s'') (\<lambda>_.
       andThen (emit (Invoke ''s.StartSelfMonitoring'')) (\<lambda>_.
         printf ''started self-monitoring at interval of %s'')))
     else ret ()))))))"

text \<open>
  The two flags that \<open>Run\<close> computes first (lines 85 to 93): \<open>initBroker\<close>, and
  \<open>initServer\<close> after \<open>initServer = initServer || initBroker\<close>.
\<close>

definition Run_flags :: "env \<Rightarrow> Config \<Rightarrow> (bool \<times> bool) proc" where
  "Run_flags E config =
     (let initBroker = \<not> fileExists E (BrokerDir config) in
      andThen (if initBroker then printf ''Broker directory missing. Need to create a broker.''
               else ret ()) (\<lambda>_.
      let initServer = \<not> fileExists E (DataDir config) in
      andThen (if initServer then
                 printf ''Data directory missing. Need to create data directory.''
               else ret ()) (\<lambda>_.
      let initServer = (initServer \<or> initBroker) in
      ret (initBroker, initServer))))"

text \<open>
  The listener of the broker handler and the continuous query loop (lines 106 to 131).
  The goroutine that serves the listener is spawned; what it does later is not modelled.
\<close>

definition Run_listen :: "env \<Rightarrow> Config \<Rightarrow> unit proc" where
  "Run_listen E config =
     andThen (call (\<lambda>h. net_Listen E h (BrokerAddr config)) (NetListen (BrokerAddr config)))
       (\<lambda>err.
     if err \<noteq> None then fatal ''TCP server failed to listen on %s. %s '' else
     andThen (emit (Spawn ''http.Serve(listener, h)'')) (\<lambda>_.
     andThen (printf ''TCP server listening on %s'') (\<lambda>_.
     if ContinuousQuery_Disable config then
       printf ''Not running continuous queries. [continuous_queries].disable is set to true.''
     else emit (Invoke ''b.RunContinuousQueryLoop''))))"

text \<open>Authentication, retention policy enforcement and shard group pre-create (lines 135 to 151).\<close>

definition Run_policies :: "env \<Rightarrow> Config \<Rightarrow> unit proc" where
  "Run_policies E config =
     andThen (emit (Invoke ''s.SetAuthenticationEnabled'')) (\<lambda>_.
     andThen (if Data_RetentionCheckEnabled config then
                andThen (must E ''s.StartRetentionPolicyEnforcement''
                           ''retention policy enforcement failed: %s'') (\<lambda>_.
                  printf ''broker enforcing retention policies with check interval of %s'')
              else ret ()) (\<lambda>_.
     andThen (must E ''s.StartShardGroupsPreCreate'' ''shard group pre-create failed: %s'') (\<lambda>_.
       printf ''shard group pre-create with check interval of %s'')))"

text \<open>The loop that reports usage statistics (lines 275 to 281).\<close>

definition Run_reporting :: "env \<Rightarrow> Config \<Rightarrow> unit proc" where
  "Run_reporting E config =
     (if \<not> ReportingDisabled config then
        andThen (\<lambda>h. (Return (Broker_ClusterID E h), [])) (\<lambda>clusterID.
          if clusterID \<noteq> 0 then emit (Spawn ''s.StartReportingLoop(clusterID)'') else ret ())
      else ret ())"

text \<open>
  \<open>Run\<close> itself: the phases above in the order of the source, around \<open>openBroker\<close> and
  \<open>openServer\<close>. It returns the broker, the server and the log it has opened; they are
  the ones the trace speaks of, so the model returns nothing. The method
  \<open>RunCommand.Run\<close>, which parses the flags, calls \<open>parseConfig\<close> and \<open>Run\<close> and then
  waits for ever, adds nothing to the startup path and is not modelled.
\<close>

definition Run :: "env \<Rightarrow> Config \<Rightarrow> string \<Rightarrow> string \<Rightarrow> unit proc" where
  "Run E config join version =
     andThen (printf ''influxdb started, version %s, commit %s'') (\<lambda>_.
     andThen (Run_flags E config) (\<lambda>(initBroker, initServer).
     andThen (if join = [] then parseURLs E (JoinURLs config) else parseURLs E join)
       (\<lambda>joinURLs.
     andThen (openBroker E (BrokerDir config) (BrokerURL config) initBroker joinURLs
                (Logging_RaftTracing config)) (\<lambda>_.
     andThen (Run_listen E config) (\<lambda>_.
     andThen (openServer E config initServer initBroker joinURLs) (\<lambda>_.
     andThen (Run_policies E config) (\<lambda>_.
     andThen (Run_services E config) (\<lambda>_.
       Run_reporting E config))))))))"

subsection \<open>Reading a trace\<close>

text \<open>The attempts to join the raft log, and those to join the data node, with their results.\<close>

fun log_joins :: "event list \<Rightarrow> (url \<times> error option) list" where
  "log_joins [] = []"
| "log_joins (LogJoin u r # es) = (u, r) # log_joins es"
| "log_joins (e # es) = log_joins es"

fun server_joins :: "event list \<Rightarrow> (url \<times> error option) list" where
  "server_joins [] = []"
| "server_joins (ServerJoin u joinURL r # es) = (joinURL, r) # server_joins es"
| "server_joins (e # es) = server_joins es"

text \<open>A step of the startup (an open or an initialize) that has returned an error.\<close>

fun step_failed :: "event \<Rightarrow> bool" where
  "step_failed (BrokerOpen p (Some err)) = True"
| "step_failed (LogOpen p (Some err)) = True"
| "step_failed (LogInitialize (Some err)) = True"
| "step_failed (ClientOpen p (Some err)) = True"
| "step_failed (ServerOpen p (Some err)) = True"
| "step_failed (ServerInitialize u (Some err)) = True"
| "step_failed e = False"

fun is_fatal :: "event \<Rightarrow> bool" where
  "is_fatal (LogFatal msg) = True"
| "is_fatal e = False"

text \<open>The calls that bootstrap or extend a cluster.\<close>

fun is_LogInitialize :: "event \<Rightarrow> bool" where
  "is_LogInitialize (LogInitialize r) = True"
| "is_LogInitialize e = False"

fun is_LogJoin :: "event \<Rightarrow> bool" where
  "is_LogJoin (LogJoin u r) = True"
| "is_LogJoin e = False"

fun is_ServerInitialize :: "event \<Rightarrow> bool" where
  "is_ServerInitialize (ServerInitialize u r) = True"
| "is_ServerInitialize e = False"

fun is_ServerJoin :: "event \<Rightarrow> bool" where
  "is_ServerJoin (ServerJoin u j r) = True"
| "is_ServerJoin e = False"

text \<open>
  The events of \<open>openBroker\<close> and \<open>openServer\<close> other than the logger's: what the two
  functions do to the raft log, the broker, the messaging client and the server.
\<close>

fun startup :: "event \<Rightarrow> bool" where
  "startup (LogSetURL u) = True"
| "startup (LogSetDebug b) = True"
| "startup (BrokerOpen p r) = True"
| "startup (LogOpen p r) = True"
| "startup (LogInitialize r) = True"
| "startup (LogJoin u r) = True"
| "startup (ClientNew u) = True"
| "startup (ClientSetURLs us) = True"
| "startup (ClientOpen p r) = True"
| "startup (ClientURLs us) = True"
| "startup (ServerOpen p r) = True"
| "startup (ServerInitialize u r) = True"
| "startup (ServerJoin u j r) = True"
| "startup e = False"

text \<open>The same events, those of \<open>openBroker\<close> apart from those of \<open>openServer\<close>.\<close>

fun of_broker :: "event \<Rightarrow> bool" where
  "of_broker (LogSetURL u) = True"
| "of_broker (LogSetDebug b) = True"
| "of_broker (BrokerOpen p r) = True"
| "of_broker (LogOpen p r) = True"
| "of_broker (LogInitialize r) = True"
| "of_broker (LogJoin u r) = True"
| "of_broker e = False"

fun of_server :: "event \<Rightarrow> bool" where
  "of_server (ClientNew u) = True"
| "of_server (ClientSetURLs us) = True"
| "of_server (ClientOpen p r) = True"
| "of_server (ClientURLs us) = True"
| "of_server (ServerOpen p r) = True"
| "of_server (ServerInitialize u r) = True"
| "of_server (ServerJoin u j r) = True"
| "of_server e = False"

subsection \<open>A concrete configuration and environment\<close>

text \<open>
  A node whose directories are both missing and whose collaborators all succeed. The
  examples below change one answer at a time.
\<close>

definition demo_config :: Config where
  "demo_config = \<lparr> Hostname = ''localhost'', BrokerDir = ''/b'', DataDir = ''/d'',
     Data_Dir = ''/d'', JoinURLs = [], BrokerURL = ''http://localhost:8086'',
     DataURL = ''http://localhost:8086'', BrokerAddr = '':8086'', SnapshotAddr = '':8087'',
     DataAddrUDP = '':4444'', Logging_RaftTracing = False, Authentication_Enabled = False,
     ContinuousQuery_Disable = False, Data_RetentionCheckEnabled = True,
     Snapshot_Enabled = True, Admin_Enabled = True, Collectd_Enabled = False,
     UDP_Enabled = False, Graphites = [], OpenTSDB_Enabled = False,
     OpenTSDB_RetentionPolicy = [], Monitoring_Enabled = False, ReportingDisabled = True \<rparr>"

definition demo_env :: env where
  "demo_env = \<lparr> os_Stat = (\<lambda>p. Some ErrNotExist), url_Parse = (\<lambda>s. Inr s),
     filepath_Join = (\<lambda>a b. a @ ''/'' @ b), messagingClientFile = ''messaging'',
     NewConfig = Inr demo_config, ParseConfigFile = (\<lambda>p. Inr demo_config),
     Broker_Open = (\<lambda>h p. None), Broker_URL = (\<lambda>h. ''http://localhost:8086''),
     Broker_ClusterID = (\<lambda>h. 1), Log_Open = (\<lambda>h p. None), Log_Initialize = (\<lambda>h. None),
     Log_Join = (\<lambda>h u. None), Client_Open = (\<lambda>h p. None),
     Client_URLs = (\<lambda>h. [''http://localhost:8086'']), Server_Open = (\<lambda>h p. None),
     Server_Initialize = (\<lambda>h u. None), Server_Join = (\<lambda>h u j. None),
     net_Listen = (\<lambda>h a. None), Service = (\<lambda>h n. None) \<rparr>"

text \<open>
  Variations of the environment: no peer accepts a join; only the second peer does; the
  broker or its raft log cannot be opened; the broker directory exists but the data
  directory does not (a restart with lost data); the data directory exists but the broker
  directory does not; the messaging client ends up with no URL; the messaging client has
  a URL until it is opened and none after (its file on disk overrides the URLs set).
\<close>

definition env_no_peer :: env where
  "env_no_peer = demo_env\<lparr>Log_Join := (\<lambda>h u. Some ''connection refused''),
                           Server_Join := (\<lambda>h u j. Some ''connection refused'')\<rparr>"

definition env_second_peer :: env where
  "env_second_peer =
     demo_env\<lparr>Log_Join := (\<lambda>h u. if u = ''http://b'' then None else Some ''connection refused'')\<rparr>"

definition env_broker_locked :: env where
  "env_broker_locked = demo_env\<lparr>Broker_Open := (\<lambda>h p. Some ''permission denied'')\<rparr>"

definition env_restart :: env where
  "env_restart = demo_env\<lparr>os_Stat := (\<lambda>p. if p = ''/b'' then None else Some ErrNotExist)\<rparr>"

definition env_data_kept :: env where
  "env_data_kept = demo_env\<lparr>os_Stat := (\<lambda>p. if p = ''/d'' then None else Some ErrNotExist)\<rparr>"

definition env_no_client_urls :: env where
  "env_no_client_urls = demo_env\<lparr>Client_URLs := (\<lambda>h. [])\<rparr>"

definition env_client_file_empty :: env where
  "env_client_file_empty =
     demo_env\<lparr>Client_URLs :=
       (\<lambda>h. if list_ex (\<lambda>e. case e of ClientOpen p r \<Rightarrow> True | _ \<Rightarrow> False) h then []
            else [''http://localhost:8086''])\<rparr>"

definition env_raft_locked :: env where
  "env_raft_locked = demo_env\<lparr>Log_Open := (\<lambda>h p. Some ''permission denied'')\<rparr>"

section \<open>The election of the raft consensus engine\<close>

text \<open>
  The package raft of the repository, which run.go drives through \<open>Initialize\<close> and \<open>Join\<close>,
  lies outside cmd/influxd. Its election is modelled here from section 4.2 of the
  specification, as a state machine over a fixed set of peers: a step is one event at one
  node, and a sequence of steps is any interleaving of timeouts, requests handled, elections
  won, entries appended and failures. A message that is lost is a step that never happens,
  a duplicated one a step that happens twice, and steps may come in any order.
\<close>

text \<open>
  Modelled from the spec: the states of a node of the raft package (not under src/):
  Follower, Candidate, Leader.
\<close>

datatype role = Follower | Candidate | Leader

text \<open>
  Modelled from the spec: what a node of the raft package keeps of \<open>ClusterConfig\<close> and of
  its log: its role, \<open>currentTerm\<close>, \<open>votedFor\<close>, and the term of each log entry (the
  commands are opaque and play no part in an election).
\<close>

record node_state =
  role :: role
  currentTerm :: nat
  votedFor :: "nat option"
  log :: "nat list"

text \<open>
  Modelled from the spec: a cluster of the raft package: the configured peers are the
  nodes \<open>0..<npeers\<close>; \<open>granted\<close> holds every vote granted so far as (term, voter,
  candidate), whether the reply has reached the candidate or not; \<open>elected\<close> records every
  election won as (term, leader).
\<close>

record cluster =
  npeers :: nat
  node :: "nat \<Rightarrow> node_state"
  granted :: "(nat \<times> nat \<times> nat) list"
  elected :: "(nat \<times> nat) list"

text \<open>
  Modelled from the spec: the events of the raft package at a node. \<open>Timeout v\<close>: the
  election timeout of \<open>v\<close> fires. \<open>RequestVote v t c li lt\<close>: \<open>v\<close> handles
  \<open>requestVote(t, c, li, lt)\<close>. \<open>Elected c\<close>: \<open>c\<close> counts its votes.
  \<open>AppendEntries v t pi pt es\<close>: \<open>v\<close> handles \<open>appendEntries\<close> of term \<open>t\<close>. \<open>Propose l\<close>:
  \<open>propose\<close> at \<open>l\<close>. \<open>Crash v\<close>: \<open>v\<close> fails and restarts. \<open>Initialize v\<close>: \<open>initialize()\<close>.
  Membership does not change: \<open>join\<close> is not a step of this model.
\<close>

datatype action =
    Timeout nat
  | RequestVote nat nat nat nat nat
  | Elected nat
  | AppendEntries nat nat nat nat "nat list"
  | Propose nat
  | Crash nat
  | Initialize nat

text \<open>
  Modelled from the spec: the initial state of the raft package's nodes: Follower, term 0,
  no vote, empty log.
\<close>

definition initial :: "nat \<Rightarrow> cluster" where
  "initial n = \<lparr> npeers = n,
      node = (\<lambda>v. \<lparr> role = Follower, currentTerm = 0, votedFor = None, log = [] \<rparr>),
      granted = [], elected = [] \<rparr>"

text \<open>
  Modelled from the spec: \<open>lastIndex()\<close> and \<open>lastTerm()\<close> of the log store of the raft
  package, and the test of \<open>requestVote\<close> that the candidate's log is at least as up to
  date: compare the terms, then the indices.
\<close>

definition lastLogIndex :: "nat list \<Rightarrow> nat" where
  "lastLogIndex l = length l"

definition lastLogTerm :: "nat list \<Rightarrow> nat" where
  "lastLogTerm l = (if l = [] then 0 else last l)"

definition up_to_date :: "nat \<Rightarrow> nat \<Rightarrow> nat list \<Rightarrow> bool" where
  "up_to_date li lt l =
     (lastLogTerm l < lt \<or> (lt = lastLogTerm l \<and> lastLogIndex l \<le> li))"

text \<open>
  Modelled from the spec: a quorum of the raft package, a strict majority of the
  configured peers, here of the peers that have granted candidate \<open>c\<close> their vote in
  term \<open>t\<close>.
\<close>

definition majority :: "cluster \<Rightarrow> nat \<Rightarrow> nat \<Rightarrow> bool" where
  "majority s t c =
     (npeers s < 2 * length (filter (\<lambda>v. (t, v, c) \<in> set (granted s)) [0..<npeers s]))"

text \<open>
  Modelled from the spec: a node of the raft package that discovers a higher term becomes a
  Follower of that term, with no vote cast in it yet.
\<close>

definition see_term :: "nat \<Rightarrow> node_state \<Rightarrow> node_state" where
  "see_term t ns =
     (if currentTerm ns < t then ns\<lparr>role := Follower, currentTerm := t, votedFor := None\<rparr>
      else ns)"

text \<open>
  Modelled from the spec: one event of the raft package. A timeout makes a Follower (or a
  Candidate whose election has not ended) a Candidate of the next term, voting for
  itself. A vote is granted for a term not older than the voter's, once per term, to a
  candidate whose log is at least as up to date. A Candidate with the votes of a
  majority in its current term becomes Leader. \<open>appendEntries\<close> is rejected on a stale
  term or a mismatch at \<open>prevLogIndex\<close>, and otherwise replaces the suffix of the log.
  \<open>propose\<close> is valid only on the Leader. A node that fails restarts as Follower and keeps
  its term, its vote and its log. \<open>initialize()\<close> makes the only node of a one-node
  cluster, still in its initial term, the leader of term 1 with an empty log. An event that
  is not enabled leaves the cluster as it is.
\<close>

fun step :: "cluster \<Rightarrow> action \<Rightarrow> cluster" where
  "step s (Timeout v) =
     (let ns = node s v in
      if v < npeers s \<and> role ns \<noteq> Leader then
        s\<lparr>node := (node s)(v := ns\<lparr>role := Candidate, currentTerm := currentTerm ns + 1,
                                   votedFor := Some v\<rparr>),
          granted := (currentTerm ns + 1, v, v) # granted s\<rparr>
      else s)"
| "step s (RequestVote v t c li lt) =
     (if v < npeers s \<and> currentTerm (node s v) \<le> t then
        (let ns = see_term t (node s v) in
         if (votedFor ns = None \<or> votedFor ns = Some c) \<and> up_to_date li lt (log ns) then
           s\<lparr>node := (node s)(v := ns\<lparr>votedFor := Some c\<rparr>),
             granted := (t, v, c) # granted s\<rparr>
         else s\<lparr>node := (node s)(v := ns)\<rparr>)
      else s)"
| "step s (Elected c) =
     (let ns = node s c in
      if c < npeers s \<and> role ns = Candidate \<and> majority s (currentTerm ns) c then
        s\<lparr>node := (node s)(c := ns\<lparr>role := Leader\<rparr>),
          elected := (currentTerm ns, c) # elected s\<rparr>
      else s)"
| "step s (AppendEntries v t prevLogIndex prevLogTerm entries) =
     (if v < npeers s \<and> currentTerm (node s v) \<le> t then
        (let ns = see_term t (node s v) in
         if prevLogIndex = 0 \<or>
            (prevLogIndex \<le> length (log ns) \<and> log ns ! (prevLogIndex - 1) = prevLogTerm) then
           s\<lparr>node := (node s)(v := ns\<lparr>log := take prevLogIndex (log ns) @ entries\<rparr>)\<rparr>
         else s\<lparr>node := (node s)(v := ns)\<rparr>)
      else s)"
| "step s (Propose l) =
     (let ns = node s l in
      if l < npeers s \<and> role ns = Leader then
        s\<lparr>node := (node s)(l := ns\<lparr>log := log ns @ [currentTerm ns]\<rparr>)\<rparr>
      else s)"
| "step s (Crash v) =
     (if v < npeers s then s\<lparr>node := (node s)(v := (node s v)\<lparr>role := Follower\<rparr>)\<rparr> else s)"
| "step s (Initialize v) =
     (let ns = node s v in
      if npeers s = 1 \<and> v = 0 \<and> role ns = Follower \<and> currentTerm ns = 0 then
        s\<lparr>node := (node s)(v := \<lparr>role = Leader, currentTerm = 1, votedFor = Some v, log = []\<rparr>),
          granted := (1, v, v) # granted s, elected := (1, v) # elected s\<rparr>
      else s)"

text \<open>
  Modelled from the spec: a run of the raft package's cluster of \<open>n\<close> peers, and the
  peers that are Leader of term \<open>t\<close> in a state.
\<close>

definition execute :: "nat \<Rightarrow> action list \<Rightarrow> cluster" where
  "execute n acts = foldl step (initial n) acts"

definition leaders :: "cluster \<Rightarrow> nat \<Rightarrow> nat list" where
  "leaders s t =
     filter (\<lambda>v. role (node s v) = Leader \<and> currentTerm (node s v) = t) [0..<npeers s]"


text \<open>
  The invariants of the election: a granted vote is of a peer, of a term the voter has
  reached, and is the voter's recorded vote while the voter is in that term; a voter
  grants one candidate per term; an election was won with a majority; a Leader has won the
  election of its term.
\<close>

definition votes_recorded :: "cluster \<Rightarrow> bool" where
  "votes_recorded s \<longleftrightarrow>
     (\<forall>t v c. (t, v, c) \<in> set (granted s) \<longrightarrow>
        v < npeers s \<and> t \<le> currentTerm (node s v) \<and>
        (t = currentTerm (node s v) \<longrightarrow> votedFor (node s v) = Some c))"

definition one_vote :: "cluster \<Rightarrow> bool" where
  "one_vote s \<longleftrightarrow>
     (\<forall>t v c c'. (t, v, c) \<in> set (granted s) \<and> (t, v, c') \<in> set (granted s) \<longrightarrow> c = c')"

definition elected_by_majority :: "cluster \<Rightarrow> bool" where
  "elected_by_majority s \<longleftrightarrow> (\<forall>t c. (t, c) \<in> set (elected s) \<longrightarrow> majority s t c)"

definition leaders_elected :: "cluster \<Rightarrow> bool" where
  "leaders_elected s \<longleftrightarrow>
     (\<forall>v. v < npeers s \<and> role (node s v) = Leader \<longrightarrow>
        (currentTerm (node s v), v) \<in> set (elected s))"

definition election_inv :: "cluster \<Rightarrow> bool" where
  "election_inv s \<longleftrightarrow>
     votes_recorded s \<and> one_vote s \<and> elected_by_majority s \<and> leaders_elected s"

text \<open>
  A contested election among three peers: 0 and 1 both stand in term 1, 2 votes for 0, 0
  wins and 1 does not; then 0 fails and 2 wins term 2.
\<close>

definition demo_election :: "action list" where
  "demo_election =
     [Timeout 0, Timeout 1, RequestVote 2 1 0 0 0, Elected 0, RequestVote 2 1 1 0 0, Elected 1,
      Propose 0, Crash 0, Timeout 2, RequestVote 0 2 2 0 0, RequestVote 1 2 2 0 0,
      RequestVote 1 2 2 1 1, Elected 2]"

section \<open>Properties of the startup path\<close>

subsection \<open>Running a procedure\<close>

lemma ret_apply: "ret x h = (Return x, [])"
  by (simp add: ret_def)

lemma emit_apply: "emit e h = (Return (), [e])"
  by (simp add: emit_def)

lemma printf_apply: "printf m h = (Return (), [LogPrintf m])"
  by (simp add: printf_def emit_def)

lemma fatal_apply: "fatal m h = (Exit, [LogFatal m])"
  by (simp add: fatal_def)

lemma call_apply: "call a ev h = (Return (a h), [ev (a h)])"
  by (simp add: call_def)

lemma andThen_apply:
  "andThen m f h = (case m h of (Exit, es) \<Rightarrow> (Exit, es)
     | (Return x, es) \<Rightarrow> (case f x (h @ es) of (r, es') \<Rightarrow> (r, es @ es')))"
  by (simp add: andThen_def)

lemmas proc_simps = ret_apply emit_apply printf_apply fatal_apply call_apply andThen_apply

subsection \<open>What a phase of Run can emit\<close>

text \<open>
  A property of the events of a procedure is proved along its structure. The phases of
  \<open>Run\<close> other than \<open>openBroker\<close> and \<open>openServer\<close> emit no startup event.
\<close>

lemma only_andThen:
  assumes "\<And>h. \<forall>e\<in>set (snd (m h)). P e" and "\<And>x h. \<forall>e\<in>set (snd (f x h)). P e"
  shows "\<forall>e\<in>set (snd (andThen m f h)). P e"
proof (cases "m h")
  case (Pair r es)
  show ?thesis
  proof (cases r)
    case Exit
    with Pair assms(1)[of h] show ?thesis by (simp add: andThen_apply)
  next
    case (Return x)
    with Pair assms(1)[of h] assms(2)[of x "h @ es"] show ?thesis
      by (auto simp: andThen_apply split: prod.splits)
  qed
qed

lemma only_if:
  "(c \<Longrightarrow> \<forall>e\<in>set (snd (a h)). P e) \<Longrightarrow> (\<not> c \<Longrightarrow> \<forall>e\<in>set (snd (b h)). P e) \<Longrightarrow>
   \<forall>e\<in>set (snd ((if c then a else b) h)). P e"
  by simp

lemma only_ret: "\<forall>e\<in>set (snd (ret x h)). P e"
  by (simp add: ret_apply)

lemma only_emit: "P e \<Longrightarrow> \<forall>e'\<in>set (snd (emit e h)). P e'"
  by (simp add: emit_apply)

lemma only_printf: "P (LogPrintf m) \<Longrightarrow> \<forall>e\<in>set (snd (printf m h)). P e"
  by (simp add: printf_apply)

lemma only_fatal: "P (LogFatal m) \<Longrightarrow> \<forall>e\<in>set (snd (fatal m h)). P e"
  by (simp add: fatal_apply)

lemma only_call: "(\<And>r. P (ev r)) \<Longrightarrow> \<forall>e\<in>set (snd (call a ev h)). P e"
  by (simp add: call_apply)

lemma only_silent: "\<forall>e\<in>set (snd ((\<lambda>h. (Return (g h), [])) h)). P e"
  by simp

lemmas only_intros = only_andThen only_if only_ret only_emit only_printf only_fatal only_call
  only_silent

lemma service_quiet: "\<forall>e\<in>set (snd (service E name h)). \<not> startup e"
  unfolding service_def by (intro only_intros) simp

lemma must_quiet: "\<forall>e\<in>set (snd (must E name msg h)). \<not> startup e"
  unfolding must_def by (intro only_intros service_quiet) simp_all

lemma Run_graphites_quiet: "\<forall>e\<in>set (snd (Run_graphites E gs h)). \<not> startup e"
proof (induction gs arbitrary: h)
  case Nil
  show ?case by (simp add: ret_apply)
next
  case (Cons g gs)
  show ?case unfolding Run_graphites.simps
    by (intro only_intros must_quiet Cons.IH)
qed

lemma Run_services_quiet: "\<forall>e\<in>set (snd (Run_services E config h)). \<not> startup e"
  unfolding Run_services_def
  by (intro only_intros must_quiet service_quiet Run_graphites_quiet) simp_all

lemma Run_policies_quiet: "\<forall>e\<in>set (snd (Run_policies E config h)). \<not> startup e"
  unfolding Run_policies_def
  by (intro only_intros must_quiet service_quiet) simp_all

lemma Run_reporting_quiet: "\<forall>e\<in>set (snd (Run_reporting E config h)). \<not> startup e"
  unfolding Run_reporting_def
  by (intro only_intros) simp_all

lemma Run_listen_quiet: "\<forall>e\<in>set (snd (Run_listen E config h)). \<not> startup e"
  unfolding Run_listen_def
  by (intro only_intros) simp_all

lemma Run_flags_quiet: "\<forall>e\<in>set (snd (Run_flags E config h)). \<not> startup e"
  unfolding Run_flags_def Let_def
  by (intro only_intros) simp_all

lemma Run_flags_result:
  "fst (Run_flags E config h) =
     Return (\<not> fileExists E (BrokerDir config),
             \<not> fileExists E (DataDir config) \<or> \<not> fileExists E (BrokerDir config))"
  by (simp add: Run_flags_def Let_def proc_simps)

lemma strings_Split_nonempty: "strings_Split s sep \<noteq> []"
  by (induction s) (auto split: list.splits)

lemma parseURLs_loop_quiet: "\<forall>e\<in>set (snd (parseURLs_loop E ss a h)). \<not> startup e"
  by (induction ss arbitrary: a) (auto simp: proc_simps split: sum.splits)

lemma parseURLs_loop_length:
  "parseURLs_loop E ss a h = (Return urls, es) \<Longrightarrow> length urls = length a + length ss"
  by (induction ss arbitrary: a) (auto simp: proc_simps split: sum.splits)

lemma parseURLs_quiet: "\<forall>e\<in>set (snd (parseURLs E s h)). \<not> startup e"
  by (simp add: parseURLs_def parseURLs_loop_quiet ret_apply)

lemma parseURLs_empty_iff:
  assumes "parseURLs E s h = (Return urls, es)"
  shows "urls = [] \<longleftrightarrow> s = []"
proof (cases "s = []")
  case True
  with assms show ?thesis by (simp add: parseURLs_def ret_apply)
next
  case False
  with assms have "length urls = length (strings_Split s (CHR '',''))"
    using parseURLs_loop_length[of E "strings_Split s (CHR '','')" "[]" h urls es]
    by (simp add: parseURLs_def)
  with False show ?thesis using strings_Split_nonempty[of s "CHR '',''"] by auto
qed

lemma quiet_filter: "\<forall>e\<in>set es. \<not> startup e \<Longrightarrow> filter startup es = []"
  by (induction es) auto

lemma andThen_Exit: "m h = (Exit, es) \<Longrightarrow> andThen m f h = (Exit, es)"
  by (simp add: andThen_apply)

lemma andThen_Return:
  "m h = (Return x, es) \<Longrightarrow> andThen m f h = (fst (f x (h @ es)), es @ snd (f x (h @ es)))"
  by (simp add: andThen_apply split: prod.splits)

lemma andThen_quiet_tail:
  assumes "andThen m f h = (r, es)" and "\<And>x h. \<forall>e\<in>set (snd (f x h)). \<not> startup e"
  shows "filter startup es = filter startup (snd (m h)) \<and> (fst (m h) = Exit \<longrightarrow> r = Exit)"
proof (cases "m h")
  case (Pair r1 es1)
  show ?thesis
  proof (cases r1)
    case Exit
    with Pair assms(1) show ?thesis by (simp add: andThen_Exit)
  next
    case (Return x)
    with Pair assms(1) have "es = es1 @ snd (f x (h @ es1))" by (simp add: andThen_Return)
    with Pair Return assms(2)[of x "h @ es1"] show ?thesis by (simp add: quiet_filter)
  qed
qed

lemma andThen_quiet_head:
  assumes "andThen m f h = (r, es)" and "\<forall>e\<in>set (snd (m h)). \<not> startup e"
  shows "(r = Exit \<and> filter startup es = []) \<or>
         (\<exists>x es1. m h = (Return x, es1) \<and> filter startup es = filter startup (snd (f x (h @ es1))) \<and>
            r = fst (f x (h @ es1)))"
proof (cases "m h")
  case (Pair r1 es1)
  show ?thesis
  proof (cases r1)
    case Exit
    with Pair assms show ?thesis by (simp add: andThen_Exit quiet_filter)
  next
    case (Return x)
    with Pair assms(1) have "es = es1 @ snd (f x (h @ es1))" "r = fst (f x (h @ es1))"
      by (simp_all add: andThen_Return)
    with Pair Return assms(2) show ?thesis by (simp add: quiet_filter)
  qed
qed

lemma Run_tail_quiet:
  "\<forall>e\<in>set (snd (andThen (Run_policies E config) (\<lambda>_.
       andThen (Run_services E config) (\<lambda>_. Run_reporting E config)) h)). \<not> startup e"
  by (intro only_andThen Run_policies_quiet Run_services_quiet Run_reporting_quiet)

subsection \<open>The startup events of a run\<close>

text \<open>
  The startup events of a run are those of its call of \<open>openBroker\<close>, followed by those
  of its call of \<open>openServer\<close> when the run gets that far; the flags and the join URLs
  these calls are given are the ones \<open>Run\<close> computes.
\<close>

lemma Run_startup:
  assumes run: "Run E c join v h = (r, es)"
  defines "ib \<equiv> \<not> fileExists E (BrokerDir c)"
  defines "isv \<equiv> (\<not> fileExists E (DataDir c) \<or> \<not> fileExists E (BrokerDir c))"
  defines "s \<equiv> (if join = [] then JoinURLs c else join)"
  shows "(r = Exit \<and> filter startup es = []) \<or>
    (\<exists>urls hb rb esb. (urls = [] \<longleftrightarrow> s = []) \<and>
       openBroker E (BrokerDir c) (BrokerURL c) ib urls (Logging_RaftTracing c) hb = (rb, esb) \<and>
       ((r = Exit \<and> filter startup es = filter startup esb) \<or>
        (rb = Return () \<and>
           (\<exists>hs rs ess. openServer E c isv ib urls hs = (rs, ess) \<and> (rs = Exit \<longrightarrow> r = Exit) \<and>
              filter startup es = filter startup esb @ filter startup ess))))"
proof -
  let ?h1 = "h @ [LogPrintf ''influxdb started, version %s, commit %s'']"
  define k1 where "k1 = (\<lambda>(initBroker, initServer).
     andThen (if join = [] then parseURLs E (JoinURLs c) else parseURLs E join)
       (\<lambda>joinURLs.
     andThen (openBroker E (BrokerDir c) (BrokerURL c) initBroker joinURLs
                (Logging_RaftTracing c)) (\<lambda>_.
     andThen (Run_listen E c) (\<lambda>_.
     andThen (openServer E c initServer initBroker joinURLs) (\<lambda>_.
     andThen (Run_policies E c) (\<lambda>_.
     andThen (Run_services E c) (\<lambda>_.
       Run_reporting E c)))))))"
  have run1: "Run E c join v = andThen (printf ''influxdb started, version %s, commit %s'') (\<lambda>_.
     andThen (Run_flags E c) k1)"
    by (simp add: Run_def k1_def)
  obtain r1 es1 where s1: "andThen (Run_flags E c) k1 ?h1 = (r1, es1)"
    by (cases "andThen (Run_flags E c) k1 ?h1")
  with run have r1: "r = r1" and es: "es = LogPrintf ''influxdb started, version %s, commit %s'' # es1"
    by (simp_all add: run1 andThen_apply printf_apply)
  have f0: "filter startup es = filter startup es1" by (simp add: es)
  obtain esf where fl: "Run_flags E c ?h1 = (Return (ib, isv), esf)"
    using Run_flags_result[of E c ?h1] by (cases "Run_flags E c ?h1") (simp add: ib_def isv_def)
  have qf: "filter startup esf = []"
    using Run_flags_quiet[of E c ?h1] fl by (simp add: quiet_filter)
  let ?h2 = "?h1 @ esf"
  define k2 where "k2 = (\<lambda>joinURLs.
     andThen (openBroker E (BrokerDir c) (BrokerURL c) ib joinURLs
                (Logging_RaftTracing c)) (\<lambda>_.
     andThen (Run_listen E c) (\<lambda>_.
     andThen (openServer E c isv ib joinURLs) (\<lambda>_.
     andThen (Run_policies E c) (\<lambda>_.
     andThen (Run_services E c) (\<lambda>_.
       Run_reporting E c))))))"
  obtain r2 es2 where s2: "andThen (parseURLs E s) k2 ?h2 = (r2, es2)"
    by (cases "andThen (parseURLs E s) k2 ?h2")
  have "k1 (ib, isv) = andThen (parseURLs E s) k2"
    by (simp add: k1_def k2_def s_def)
  with s1 fl s2 have r2: "r1 = r2" and es1: "es1 = esf @ es2"
    by (simp_all add: andThen_Return)
  have f1: "filter startup es = filter startup es2" by (simp add: f0 es1 qf)
  from andThen_quiet_head[OF s2 parseURLs_quiet]
  consider (stop) "r2 = Exit" "filter startup es2 = []"
    | (go) urls esp where "parseURLs E s ?h2 = (Return urls, esp)"
        "filter startup es2 = filter startup (snd (k2 urls (?h2 @ esp)))"
        "r2 = fst (k2 urls (?h2 @ esp))"
    by blast
  then show ?thesis
  proof cases
    case stop
    then show ?thesis by (simp add: r1 r2 f1)
  next
    case go
    let ?hb = "?h2 @ esp"
    have ue: "urls = [] \<longleftrightarrow> s = []" using parseURLs_empty_iff[OF go(1)] .
    obtain rb esb where ob: "openBroker E (BrokerDir c) (BrokerURL c) ib urls (Logging_RaftTracing c) ?hb = (rb, esb)"
      by (cases "openBroker E (BrokerDir c) (BrokerURL c) ib urls (Logging_RaftTracing c) ?hb")
    show ?thesis
    proof (cases rb)
      case Exit
      with ob have "k2 urls ?hb = (Exit, esb)" by (simp add: k2_def andThen_Exit)
      with go have "r = Exit" "filter startup es = filter startup esb" by (simp_all add: r1 r2 f1)
      with ob ue have "(urls = [] \<longleftrightarrow> s = []) \<and>
         openBroker E (BrokerDir c) (BrokerURL c) ib urls (Logging_RaftTracing c) ?hb = (rb, esb) \<and>
         ((r = Exit \<and> filter startup es = filter startup esb) \<or>
          (rb = Return () \<and>
           (\<exists>hs rs ess. openServer E c isv ib urls hs = (rs, ess) \<and> (rs = Exit \<longrightarrow> r = Exit) \<and>
              filter startup es = filter startup esb @ filter startup ess)))"
        by simp
      then show ?thesis
        apply -
        apply (rule disjI2)
        apply (rule exI)+
        apply assumption
        done
    next
      case (Return x)
      let ?hl = "?hb @ esb"
      define k3 where "k3 = (\<lambda>_::unit.
         andThen (openServer E c isv ib urls) (\<lambda>_.
         andThen (Run_policies E c) (\<lambda>_.
         andThen (Run_services E c) (\<lambda>_.
           Run_reporting E c))))"
      obtain r3 es3 where s3: "andThen (Run_listen E c) k3 ?hl = (r3, es3)"
        by (cases "andThen (Run_listen E c) k3 ?hl")
      from ob Return have "k2 urls ?hb = (r3, esb @ es3)"
        using s3 by (simp add: k2_def k3_def andThen_Return)
      with go have r3: "r2 = r3" and f2: "filter startup es2 = filter startup esb @ filter startup es3"
        by simp_all
      from andThen_quiet_head[OF s3 Run_listen_quiet]
      consider (stop) "r3 = Exit" "filter startup es3 = []"
        | (go2) y esl where "Run_listen E c ?hl = (Return y, esl)"
            "filter startup es3 = filter startup (snd (k3 y (?hl @ esl)))"
            "r3 = fst (k3 y (?hl @ esl))"
        by blast
      then have "(r = Exit \<and> filter startup es = filter startup esb) \<or>
          (rb = Return () \<and>
           (\<exists>hs rs ess. openServer E c isv ib urls hs = (rs, ess) \<and> (rs = Exit \<longrightarrow> r = Exit) \<and>
              filter startup es = filter startup esb @ filter startup ess))"
      proof cases
        case stop
        then show ?thesis by (simp add: r1 r2 r3 f1 f2)
      next
        case go2
        let ?hs = "?hl @ esl"
        obtain rs ess where os: "openServer E c isv ib urls ?hs = (rs, ess)"
          by (cases "openServer E c isv ib urls ?hs")
        obtain r4 es4 where s4: "k3 y ?hs = (r4, es4)" by (cases "k3 y ?hs")
        from andThen_quiet_tail[OF s4[unfolded k3_def] Run_tail_quiet] os
        have "filter startup es4 = filter startup ess" "rs = Exit \<longrightarrow> r4 = Exit" by simp_all
        with go2 s4 have "filter startup es = filter startup esb @ filter startup ess" "rs = Exit \<longrightarrow> r = Exit"
          by (simp_all add: r1 r2 r3 f1 f2)
        with os have "\<exists>hs rs ess. openServer E c isv ib urls hs = (rs, ess) \<and> (rs = Exit \<longrightarrow> r = Exit) \<and>
              filter startup es = filter startup esb @ filter startup ess"
          apply -
          apply (rule exI)+
          apply (intro conjI)
          apply assumption+
          done
        with Return show ?thesis by (cases x) simp
      qed
      with ob ue have "(urls = [] \<longleftrightarrow> s = []) \<and>
         openBroker E (BrokerDir c) (BrokerURL c) ib urls (Logging_RaftTracing c) ?hb = (rb, esb) \<and>
         ((r = Exit \<and> filter startup es = filter startup esb) \<or>
          (rb = Return () \<and>
           (\<exists>hs rs ess. openServer E c isv ib urls hs = (rs, ess) \<and> (rs = Exit \<longrightarrow> r = Exit) \<and>
              filter startup es = filter startup esb @ filter startup ess)))"
        by simp
      then show ?thesis
        apply -
        apply (rule disjI2)
        apply (rule exI)+
        apply assumption
        done
    qed
  qed
qed

subsection \<open>The join loops\<close>

text \<open>
  One round of each loop, then what a whole loop can do, by induction on the list of URLs.
\<close>

lemma log_joins_append: "log_joins (xs @ ys) = log_joins xs @ log_joins ys"
  by (induction xs rule: log_joins.induct) auto

lemma server_joins_append: "server_joins (xs @ ys) = server_joins xs @ server_joins ys"
  by (induction xs rule: server_joins.induct) auto

lemma joinLog_Cons_fail:
  assumes "Log_Join E h u = Some err"
  shows "joinLog E (u # us) h =
           (fst (joinLog E us (h @ [LogJoin u (Some err), LogPrintf ''join: failed to connect to raft cluster: %s: %s''])),
            LogJoin u (Some err) # LogPrintf ''join: failed to connect to raft cluster: %s: %s'' #
            snd (joinLog E us (h @ [LogJoin u (Some err), LogPrintf ''join: failed to connect to raft cluster: %s: %s''])))"
  using assms by (simp add: proc_simps split: prod.splits outcome.splits)

lemma joinLog_Cons_ok:
  assumes "Log_Join E h u = None"
  shows "joinLog E (u # us) h = (Return (), [LogJoin u None, LogPrintf ''join: connected raft log to %s''])"
  using assms by (simp add: proc_simps)

lemma joinLog_shape:
  "joinLog E urls h = (r, es) \<Longrightarrow>
     (\<exists>n\<le>length urls. map fst (log_joins es) = take n urls) \<and>
     (r = Return () \<longrightarrow>
        log_joins es \<noteq> [] \<and> snd (last (log_joins es)) = None \<and>
        (\<forall>a\<in>set (butlast (log_joins es)). snd a \<noteq> None)) \<and>
     (r = Exit \<longrightarrow>
        map fst (log_joins es) = urls \<and> (\<forall>a\<in>set (log_joins es). snd a \<noteq> None))"
proof (induction urls arbitrary: h r es)
  case Nil
  then show ?case by (auto simp: proc_simps)
next
  case (Cons u us)
  show ?case
  proof (cases "Log_Join E h u")
    case None
    with Cons.prems have "r = Return ()" "es = [LogJoin u None, LogPrintf ''join: connected raft log to %s'']"
      by (simp_all add: joinLog_Cons_ok del: joinLog.simps)
    then show ?thesis by (auto intro: exI[of _ 1])
  next
    case (Some err)
    define h' where "h' = h @ [LogJoin u (Some err), LogPrintf ''join: failed to connect to raft cluster: %s: %s'']"
    obtain r' es' where rec: "joinLog E us h' = (r', es')"
      by (cases "joinLog E us h'") 
    with Cons.prems Some have r: "r = r'" and es: "es = LogJoin u (Some err) # LogPrintf ''join: failed to connect to raft cluster: %s: %s'' # es'"
      by (simp_all add: joinLog_Cons_fail h'_def del: joinLog.simps)
    from Cons.IH[OF rec] obtain n where n: "n \<le> length us" "map fst (log_joins es') = take n us" by blast
    have j: "log_joins es = (u, Some err) # log_joins es'" by (simp add: es)
    have 1: "\<exists>n\<le>length (u # us). map fst (log_joins es) = take n (u # us)"
      using n by (intro exI[of _ "Suc n"]) (simp add: j)
    show ?thesis using 1 Cons.IH[OF rec] by (auto simp: j r split: if_splits)
  qed
qed

lemma joinLog_kinds:
  "e \<in> set (snd (joinLog E urls h)) \<Longrightarrow>
     (\<exists>u r. e = LogJoin u r) \<or> (\<exists>m. e = LogPrintf m) \<or>
     e = LogFatal ''join: failed to connect raft log to any specified server''"
proof (induction urls arbitrary: h)
  case Nil
  then show ?case by (simp add: proc_simps)
next
  case (Cons u us)
  show ?case
  proof (cases "Log_Join E h u")
    case None
    with Cons.prems show ?thesis by (auto simp add: joinLog_Cons_ok simp del: joinLog.simps)
  next
    case (Some err)
    with Cons.prems Cons.IH show ?thesis by (auto simp add: joinLog_Cons_fail simp del: joinLog.simps)
  qed
qed

lemma joinLog_fatal:
  "joinLog E urls h = (r, es) \<Longrightarrow>
     (r = Exit \<longrightarrow> es \<noteq> [] \<and> last es = LogFatal ''join: failed to connect raft log to any specified server'') \<and>
     (r = Return () \<longrightarrow> (\<forall>e\<in>set es. \<not> is_fatal e))"
proof (induction urls arbitrary: h r es)
  case Nil
  then show ?case by (auto simp: proc_simps)
next
  case (Cons u us)
  show ?case
  proof (cases "Log_Join E h u")
    case None
    with Cons.prems show ?thesis by (auto simp add: joinLog_Cons_ok simp del: joinLog.simps)
  next
    case (Some err)
    define h' where "h' = h @ [LogJoin u (Some err), LogPrintf ''join: failed to connect to raft cluster: %s: %s'']"
    obtain r' es' where rec: "joinLog E us h' = (r', es')"
      by (cases "joinLog E us h'") 
    with Cons.prems Some have r: "r = r'" and es: "es = LogJoin u (Some err) # LogPrintf ''join: failed to connect to raft cluster: %s: %s'' # es'"
      by (simp_all add: joinLog_Cons_fail h'_def del: joinLog.simps)
    from Cons.IH[OF rec] show ?thesis by (auto simp: r es)
  qed
qed

lemma joinServer_Cons_fail:
  assumes "Server_Join E h u j = Some err"
  shows "joinServer E u (j # js) h =
           (fst (joinServer E u js (h @ [ServerJoin u j (Some err), LogPrintf ''join: failed to connect data node: %s: %s''])),
            ServerJoin u j (Some err) # LogPrintf ''join: failed to connect data node: %s: %s'' #
            snd (joinServer E u js (h @ [ServerJoin u j (Some err), LogPrintf ''join: failed to connect data node: %s: %s''])))"
  using assms by (simp add: proc_simps split: prod.splits outcome.splits)

lemma joinServer_Cons_ok:
  assumes "Server_Join E h u j = None"
  shows "joinServer E u (j # js) h = (Return (), [ServerJoin u j None, LogPrintf ''join: connected data node to %s''])"
  using assms by (simp add: proc_simps)

lemma joinServer_shape:
  "joinServer E u urls h = (r, es) \<Longrightarrow>
     (\<exists>n\<le>length urls. map fst (server_joins es) = take n urls) \<and>
     (r = Return () \<longrightarrow>
        server_joins es \<noteq> [] \<and> snd (last (server_joins es)) = None \<and>
        (\<forall>a\<in>set (butlast (server_joins es)). snd a \<noteq> None)) \<and>
     (r = Exit \<longrightarrow>
        map fst (server_joins es) = urls \<and> (\<forall>a\<in>set (server_joins es). snd a \<noteq> None))"
proof (induction urls arbitrary: h r es)
  case Nil
  then show ?case by (auto simp: proc_simps)
next
  case (Cons j js)
  show ?case
  proof (cases "Server_Join E h u j")
    case None
    with Cons.prems have "r = Return ()" "es = [ServerJoin u j None, LogPrintf ''join: connected data node to %s'']"
      by (simp_all add: joinServer_Cons_ok del: joinServer.simps)
    then show ?thesis by (auto intro: exI[of _ 1])
  next
    case (Some err)
    define h' where "h' = h @ [ServerJoin u j (Some err), LogPrintf ''join: failed to connect data node: %s: %s'']"
    obtain r' es' where rec: "joinServer E u js h' = (r', es')"
      by (cases "joinServer E u js h'") 
    with Cons.prems Some have r: "r = r'" and es: "es = ServerJoin u j (Some err) # LogPrintf ''join: failed to connect data node: %s: %s'' # es'"
      by (simp_all add: joinServer_Cons_fail h'_def del: joinServer.simps)
    from Cons.IH[OF rec] obtain n where n: "n \<le> length js" "map fst (server_joins es') = take n js" by blast
    have jj: "server_joins es = (j, Some err) # server_joins es'" by (simp add: es)
    have 1: "\<exists>n\<le>length (j # js). map fst (server_joins es) = take n (j # js)"
      using n by (intro exI[of _ "Suc n"]) (simp add: jj)
    show ?thesis using 1 Cons.IH[OF rec] by (auto simp: jj r split: if_splits)
  qed
qed

lemma joinServer_kinds:
  "e \<in> set (snd (joinServer E u urls h)) \<Longrightarrow>
     (\<exists>j r. e = ServerJoin u j r) \<or> (\<exists>m. e = LogPrintf m) \<or>
     e = LogFatal ''join: failed to connect data node to any specified server''"
proof (induction urls arbitrary: h)
  case Nil
  then show ?case by (simp add: proc_simps)
next
  case (Cons j js)
  show ?case
  proof (cases "Server_Join E h u j")
    case None
    with Cons.prems show ?thesis by (auto simp add: joinServer_Cons_ok simp del: joinServer.simps)
  next
    case (Some err)
    with Cons.prems Cons.IH show ?thesis by (auto simp add: joinServer_Cons_fail simp del: joinServer.simps)
  qed
qed

lemma joinServer_fatal:
  "joinServer E u urls h = (r, es) \<Longrightarrow>
     (r = Exit \<longrightarrow> es \<noteq> [] \<and> last es = LogFatal ''join: failed to connect data node to any specified server'') \<and>
     (r = Return () \<longrightarrow> (\<forall>e\<in>set es. \<not> is_fatal e))"
proof (induction urls arbitrary: h r es)
  case Nil
  then show ?case by (auto simp: proc_simps)
next
  case (Cons j js)
  show ?case
  proof (cases "Server_Join E h u j")
    case None
    with Cons.prems show ?thesis by (auto simp add: joinServer_Cons_ok simp del: joinServer.simps)
  next
    case (Some err)
    define h' where "h' = h @ [ServerJoin u j (Some err), LogPrintf ''join: failed to connect data node: %s: %s'']"
    obtain r' es' where rec: "joinServer E u js h' = (r', es')"
      by (cases "joinServer E u js h'") 
    with Cons.prems Some have r: "r = r'" and es: "es = ServerJoin u j (Some err) # LogPrintf ''join: failed to connect data node: %s: %s'' # es'"
      by (simp_all add: joinServer_Cons_fail h'_def del: joinServer.simps)
    from Cons.IH[OF rec] show ?thesis by (auto simp: r es)
  qed
qed

text \<open>The runs of openBroker, one by one.\<close>

lemma openBroker_cases:
  assumes "openBroker E path u init urls rt h = (r, es)"
  defines "raft \<equiv> filepath_Join E path ''raft''"
  defines "pre \<equiv> [LogSetURL u, LogSetDebug rt, BrokerOpen path None,
                   LogPrintf ''broker opened at %s'', LogOpen raft None]"
  shows
   "(\<exists>err. r = Exit \<and> es = [LogSetURL u, LogSetDebug rt, BrokerOpen path (Some err),
        LogFatal ''failed to open broker at %s : %s'']) \<or>
    (\<exists>err. r = Exit \<and> es = [LogSetURL u, LogSetDebug rt, BrokerOpen path None,
        LogPrintf ''broker opened at %s'', LogOpen raft (Some err), LogFatal ''raft: %s'']) \<or>
    (\<not> init \<and> r = Return () \<and> es = pre) \<or>
    (init \<and> urls = [] \<and> r = Return () \<and> es = pre @ [LogInitialize None]) \<or>
    (\<exists>err. init \<and> urls = [] \<and> r = Exit \<and>
        es = pre @ [LogInitialize (Some err), LogFatal ''initialize raft log: %s'']) \<or>
    (\<exists>es'. init \<and> urls \<noteq> [] \<and> es = pre @ es' \<and> joinLog E urls (h @ pre) = (r, es'))"
  using assms(1) unfolding raft_def pre_def
  by (auto simp: openBroker_def proc_simps split: if_splits prod.splits outcome.splits)

text \<open>The runs of openServer, one by one.\<close>

lemma openServer_cases:
  assumes "openServer E c initServer initBroker urls h = (r, es)"
  defines "mf \<equiv> filepath_Join E (Data_Dir c) (messagingClientFile E)"
  defines "pre0 \<equiv> [ClientNew (DataURL c),
                    ClientSetURLs (if urls = [] then [Broker_URL E h] else urls)]"
  shows
   "(\<exists>err. r = Exit \<and> es = pre0 @ [ClientOpen mf (Some err), LogFatal ''messaging client error: %s'']) \<or>
    (r = Exit \<and> es = pre0 @ [ClientOpen mf None, ClientURLs [],
        LogFatal ''messaging client has no broker URLs'']) \<or>
    (\<exists>cus err. cus \<noteq> [] \<and> r = Exit \<and> es = pre0 @ [ClientOpen mf None, ClientURLs cus,
        ServerOpen (Data_Dir c) (Some err), LogFatal ''failed to open data server: %v'']) \<or>
    (\<exists>cus pre. cus \<noteq> [] \<and>
       pre = pre0 @ [ClientOpen mf None, ClientURLs cus, ServerOpen (Data_Dir c) None,
                     LogPrintf ''data server opened at %s''] \<and>
       ((\<not> (initServer \<and> (urls \<noteq> [] \<or> initBroker)) \<and> r = Return () \<and> es = pre) \<or>
        (\<exists>bu. initServer \<and> urls = [] \<and> initBroker \<and> r = Return () \<and>
           es = pre @ [ServerInitialize bu None]) \<or>
        (\<exists>bu err. initServer \<and> urls = [] \<and> initBroker \<and> r = Exit \<and>
           es = pre @ [ServerInitialize bu (Some err), LogFatal ''server initialization error: %s'']) \<or>
        (\<exists>es'. initServer \<and> urls \<noteq> [] \<and> es = pre @ es' \<and>
           joinServer E (DataURL c) urls (h @ pre) = (r, es'))))"
  using assms(1) unfolding mf_def pre0_def
  by (auto simp: openServer_def proc_simps split: if_splits prod.splits outcome.splits)

subsection \<open>Probing order and exhaustion\<close>

text \<open>
  C4. \<open>joinLog\<close> tries \<open>Join\<close> on the URLs in the order given: the URLs it has tried are a
  prefix of the list. When it returns, the last attempt is the one that succeeded and every
  attempt before it failed, so no URL after the first success is contacted. When it ends
  the process, it has tried every URL of the list and each attempt failed.
\<close>
theorem joinLog_probes_in_order:
  "joinLog E urls h = (r, es) \<Longrightarrow>
     (\<exists>n\<le>length urls. map fst (log_joins es) = take n urls) \<and>
     (r = Return () \<longrightarrow>
        log_joins es \<noteq> [] \<and> snd (last (log_joins es)) = None \<and>
        (\<forall>a\<in>set (butlast (log_joins es)). snd a \<noteq> None)) \<and>
     (r = Exit \<longrightarrow>
        map fst (log_joins es) = urls \<and> (\<forall>a\<in>set (log_joins es). snd a \<noteq> None))"
  by (rule joinLog_shape)

theorem joinLog_probes_in_order_witness:
  "joinLog env_second_peer [''http://a'', ''http://b'', ''http://c''] [] =
     (Return (), [LogJoin ''http://a'' (Some ''connection refused''),
        LogPrintf ''join: failed to connect to raft cluster: %s: %s'',
        LogJoin ''http://b'' None, LogPrintf ''join: connected raft log to %s'']) \<and>
   map fst (log_joins [LogJoin ''http://a'' (Some ''connection refused''),
        LogPrintf ''join: failed to connect to raft cluster: %s: %s'',
        LogJoin ''http://b'' None, LogPrintf ''join: connected raft log to %s'']) =
      take 2 [''http://a'', ''http://b'', ''http://c'']"
  using joinLog_probes_in_order [of env_second_peer
     "[''http://a'', ''http://b'', ''http://c'']" "[]" "Return ()" "[LogJoin ''http://a'' (Some ''connection refused''),
        LogPrintf ''join: failed to connect to raft cluster: %s: %s'',
        LogJoin ''http://b'' None, LogPrintf ''join: connected raft log to %s'']"]
  by (simp add: env_second_peer_def demo_env_def proc_simps)

text \<open>
  C2, as the code has it. When every attempt to join has failed, \<open>joinLog\<close> and \<open>joinServer\<close>
  have tried every URL and end the process with \<open>log.Fatalf\<close>: the outcome is \<open>Exit\<close>
  and the last event is the fatal message. Nothing is returned to the caller.
\<close>
theorem join_exhaustion_is_fatal:
  "(joinLog E urls h = (r, es) \<and> (\<forall>a\<in>set (log_joins es). snd a \<noteq> None) \<longrightarrow>
      r = Exit \<and> map fst (log_joins es) = urls \<and>
      last es = LogFatal ''join: failed to connect raft log to any specified server'') \<and>
   (joinServer E u urls h' = (r', es') \<and> (\<forall>a\<in>set (server_joins es'). snd a \<noteq> None) \<longrightarrow>
      r' = Exit \<and> map fst (server_joins es') = urls \<and>
      last es' = LogFatal ''join: failed to connect data node to any specified server'')"
proof (intro conjI impI)
  assume a: "joinLog E urls h = (r, es) \<and> (\<forall>a\<in>set (log_joins es). snd a \<noteq> None)"
  have "r \<noteq> Return ()"
  proof
    assume "r = Return ()"
    with a joinLog_shape[of E urls h r es]
    have "log_joins es \<noteq> []" "snd (last (log_joins es)) = None" by simp_all
    with a show False using last_in_set by blast
  qed
  then have r: "r = Exit" by (cases r) simp_all
  then show "r = Exit" .
  from a r joinLog_shape[of E urls h r es] show "map fst (log_joins es) = urls" by simp
  from a r joinLog_fatal[of E urls h r es]
  show "last es = LogFatal ''join: failed to connect raft log to any specified server''" by simp
next
  assume a: "joinServer E u urls h' = (r', es') \<and> (\<forall>a\<in>set (server_joins es'). snd a \<noteq> None)"
  have "r' \<noteq> Return ()"
  proof
    assume "r' = Return ()"
    with a joinServer_shape[of E u urls h' r' es']
    have "server_joins es' \<noteq> []" "snd (last (server_joins es')) = None" by simp_all
    with a show False using last_in_set by blast
  qed
  then have r: "r' = Exit" by (cases r') simp_all
  then show "r' = Exit" .
  from a r joinServer_shape[of E u urls h' r' es'] show "map fst (server_joins es') = urls" by simp
  from a r joinServer_fatal[of E u urls h' r' es']
  show "last es' = LogFatal ''join: failed to connect data node to any specified server''" by simp
qed

theorem join_exhaustion_is_fatal_witness:
  "joinLog env_no_peer [''http://a'', ''http://b''] [] =
     (Exit, [LogJoin ''http://a'' (Some ''connection refused''),
             LogPrintf ''join: failed to connect to raft cluster: %s: %s'',
             LogJoin ''http://b'' (Some ''connection refused''),
             LogPrintf ''join: failed to connect to raft cluster: %s: %s'',
             LogFatal ''join: failed to connect raft log to any specified server'']) \<and>
   joinServer env_no_peer ''http://me'' [''http://a''] [] =
     (Exit, [ServerJoin ''http://me'' ''http://a'' (Some ''connection refused''),
             LogPrintf ''join: failed to connect data node: %s: %s'',
             LogFatal ''join: failed to connect data node to any specified server''])"
  using join_exhaustion_is_fatal [of env_no_peer "[''http://a'', ''http://b'']" "[]" Exit
      "[LogJoin ''http://a'' (Some ''connection refused''),
             LogPrintf ''join: failed to connect to raft cluster: %s: %s'',
             LogJoin ''http://b'' (Some ''connection refused''),
             LogPrintf ''join: failed to connect to raft cluster: %s: %s'',
             LogFatal ''join: failed to connect raft log to any specified server'']"
      "''http://me''" "[]" Exit "[]"]
  by (simp add: env_no_peer_def demo_env_def proc_simps)

theorem join_exhaustion_exits_process:
  "fst (joinLog env_no_peer [''http://a''] []) = Exit \<and>
   fst (joinServer env_no_peer ''http://me'' [''http://a''] []) = Exit"
  by (simp add: env_no_peer_def demo_env_def proc_simps)

subsection \<open>Failing steps\<close>

lemma joinLog_quiet_steps:
  "e \<in> set (snd (joinLog E urls h)) \<Longrightarrow> \<not> step_failed e \<and> \<not> is_LogInitialize e \<and>
     \<not> is_ServerInitialize e \<and> \<not> is_ServerJoin e"
  using joinLog_kinds[of e E urls h] by auto

lemma joinServer_quiet_steps:
  "e \<in> set (snd (joinServer E u urls h)) \<Longrightarrow> \<not> step_failed e \<and> \<not> is_LogInitialize e \<and>
     \<not> is_ServerInitialize e \<and> \<not> is_LogJoin e"
  using joinServer_kinds[of e E u urls h] by auto

lemma joinLog_all_failed_exit:
  assumes "joinLog E urls h = (r, es)" "\<forall>a\<in>set (log_joins es). snd a \<noteq> None"
  shows "r = Exit"
proof -
  have "r \<noteq> Return ()"
  proof
    assume "r = Return ()"
    with assms(1) joinLog_shape[of E urls h r es]
    have "log_joins es \<noteq> []" "snd (last (log_joins es)) = None" by simp_all
    with assms(2) show False using last_in_set by blast
  qed
  then show ?thesis by (cases r) simp_all
qed

lemma joinServer_all_failed_exit:
  assumes "joinServer E u urls h = (r, es)" "\<forall>a\<in>set (server_joins es). snd a \<noteq> None"
  shows "r = Exit"
proof -
  have "r \<noteq> Return ()"
  proof
    assume "r = Return ()"
    with assms(1) joinServer_shape[of E u urls h r es]
    have "server_joins es \<noteq> []" "snd (last (server_joins es)) = None" by simp_all
    with assms(2) show False using last_in_set by blast
  qed
  then show ?thesis by (cases r) simp_all
qed

lemma openBroker_failures:
  assumes ob: "openBroker E path u init urls rt h = (r, es)"
  shows "((\<exists>e\<in>set es. step_failed e) \<or>
          (log_joins es \<noteq> [] \<and> (\<forall>a\<in>set (log_joins es). snd a \<noteq> None)) \<longrightarrow> r = Exit) \<and>
         (r = Exit \<longrightarrow> es \<noteq> [] \<and> is_fatal (last es)) \<and>
         (r = Return () \<longrightarrow> (\<forall>e\<in>set es. \<not> is_fatal e \<and> \<not> step_failed e))"
  using openBroker_cases[OF ob]
proof (elim disjE exE conjE, goal_cases)
  case (1 err)
  then show ?case by simp
next
  case (2 err)
  then show ?case by simp
next
  case 3
  then show ?case by simp
next
  case 4
  then show ?case by simp
next
  case (5 err)
  then show ?case by simp
next
  case (6 es')
  define pre where "pre = [LogSetURL u, LogSetDebug rt, BrokerOpen path None,
                   LogPrintf ''broker opened at %s'', LogOpen (filepath_Join E path ''raft'') None]"
  have es: "es = pre @ es'" and jl: "joinLog E urls (h @ pre) = (r, es')"
    using 6 by (simp_all add: pre_def)
  have q: "\<forall>e\<in>set es'. \<not> step_failed e"
    using joinLog_quiet_steps[of _ E urls "h @ pre"] jl by simp
  have lj: "log_joins es = log_joins es'" by (simp add: es pre_def)
  have nf: "\<forall>e\<in>set es. \<not> step_failed e" using q by (simp add: es pre_def)
  have a: "(\<forall>a\<in>set (log_joins es). snd a \<noteq> None) \<longrightarrow> r = Exit"
    using joinLog_all_failed_exit[OF jl] lj by simp
  have b: "r = Exit \<longrightarrow> es \<noteq> [] \<and> is_fatal (last es)"
    using joinLog_fatal[OF jl] by (simp add: es)
  have c: "r = Return () \<longrightarrow> (\<forall>e\<in>set es. \<not> is_fatal e)"
    using joinLog_fatal[OF jl] by (simp add: es pre_def)
  from nf a b c show ?case by blast
qed

lemma openServer_failures:
  assumes os: "openServer E c initServer initBroker urls h = (r, es)"
  shows "((\<exists>e\<in>set es. step_failed e) \<or> ClientURLs [] \<in> set es \<or>
          (server_joins es \<noteq> [] \<and> (\<forall>a\<in>set (server_joins es). snd a \<noteq> None)) \<longrightarrow> r = Exit) \<and>
         (r = Exit \<longrightarrow> es \<noteq> [] \<and> is_fatal (last es)) \<and>
         (r = Return () \<longrightarrow> (\<forall>e\<in>set es. \<not> is_fatal e \<and> \<not> step_failed e))"
  using openServer_cases[OF os]
proof (elim disjE exE conjE, goal_cases)
  case (1 err)
  then show ?case by simp
next
  case 2
  then show ?case by simp
next
  case (3 cus err)
  then show ?case by simp
next
  case (4 cus pre)
  then show ?case by simp
next
  case (5 cus pre bu)
  then show ?case by simp
next
  case (6 cus pre bu err)
  then show ?case by simp
next
  case (7 cus pre es')
  have es: "es = pre @ es'" and js: "joinServer E (DataURL c) urls (h @ pre) = (r, es')"
    using 7 by simp_all
  have p: "server_joins pre = []" "\<forall>e\<in>set pre. \<not> is_fatal e \<and> \<not> step_failed e"
      "ClientURLs [] \<notin> set pre"
    using 7(1,2) by simp_all
  have k1: "\<forall>e\<in>set es'. \<not> step_failed e"
    using joinServer_quiet_steps[of _ E "DataURL c" urls "h @ pre"] js by simp
  have k2: "ClientURLs [] \<notin> set es'"
    using joinServer_kinds[of "ClientURLs []" E "DataURL c" urls "h @ pre"] js by auto
  have lj: "server_joins es = server_joins es'" by (simp add: es p(1) server_joins_append)
  have nf: "\<forall>e\<in>set es. \<not> step_failed e" "ClientURLs [] \<notin> set es"
    using k1 k2 p(2,3) by (auto simp: es)
  have a: "(\<forall>a\<in>set (server_joins es). snd a \<noteq> None) \<longrightarrow> r = Exit"
    using joinServer_all_failed_exit[OF js] lj by simp
  have b: "r = Exit \<longrightarrow> es \<noteq> [] \<and> is_fatal (last es)"
    using joinServer_fatal[OF js] by (simp add: es)
  have c: "r = Return () \<longrightarrow> (\<forall>e\<in>set es. \<not> is_fatal e)"
    using joinServer_fatal[OF js] p(2) by (auto simp: es)
  from nf a b c show ?case by blast
qed

text \<open>
  C6, as the code has it. In \<open>openBroker\<close> and \<open>openServer\<close> a failing step (an open or an
  initialize that returns an error, a client left without URL, a join list exhausted)
  ends the process: the outcome is \<open>Exit\<close> and the last event is a fatal log message.
  The two functions have no error result; when they return, no step has failed and
  nothing fatal was logged.
\<close>
theorem startup_failure_is_fatal:
  "(openBroker E path u init urls rt h = (r, es) \<longrightarrow>
      ((\<exists>e\<in>set es. step_failed e) \<or>
       (log_joins es \<noteq> [] \<and> (\<forall>a\<in>set (log_joins es). snd a \<noteq> None)) \<longrightarrow> r = Exit) \<and>
      (r = Exit \<longrightarrow> es \<noteq> [] \<and> is_fatal (last es)) \<and>
      (r = Return () \<longrightarrow> (\<forall>e\<in>set es. \<not> is_fatal e \<and> \<not> step_failed e))) \<and>
   (openServer E' c initServer initBroker urls' h' = (r', es') \<longrightarrow>
      ((\<exists>e\<in>set es'. step_failed e) \<or> ClientURLs [] \<in> set es' \<or>
       (server_joins es' \<noteq> [] \<and> (\<forall>a\<in>set (server_joins es'). snd a \<noteq> None)) \<longrightarrow> r' = Exit) \<and>
      (r' = Exit \<longrightarrow> es' \<noteq> [] \<and> is_fatal (last es')) \<and>
      (r' = Return () \<longrightarrow> (\<forall>e\<in>set es'. \<not> is_fatal e \<and> \<not> step_failed e)))"
proof (rule conjI)
  show "openBroker E path u init urls rt h = (r, es) \<longrightarrow>
      ((\<exists>e\<in>set es. step_failed e) \<or>
       (log_joins es \<noteq> [] \<and> (\<forall>a\<in>set (log_joins es). snd a \<noteq> None)) \<longrightarrow> r = Exit) \<and>
      (r = Exit \<longrightarrow> es \<noteq> [] \<and> is_fatal (last es)) \<and>
      (r = Return () \<longrightarrow> (\<forall>e\<in>set es. \<not> is_fatal e \<and> \<not> step_failed e))"
    by (rule impI) (erule openBroker_failures)
  show "openServer E' c initServer initBroker urls' h' = (r', es') \<longrightarrow>
      ((\<exists>e\<in>set es'. step_failed e) \<or> ClientURLs [] \<in> set es' \<or>
       (server_joins es' \<noteq> [] \<and> (\<forall>a\<in>set (server_joins es'). snd a \<noteq> None)) \<longrightarrow> r' = Exit) \<and>
      (r' = Exit \<longrightarrow> es' \<noteq> [] \<and> is_fatal (last es')) \<and>
      (r' = Return () \<longrightarrow> (\<forall>e\<in>set es'. \<not> is_fatal e \<and> \<not> step_failed e))"
    by (rule impI) (erule openServer_failures)
qed

theorem startup_failure_is_fatal_witness:
  "openBroker env_broker_locked ''/b'' ''http://localhost:8086'' True [] False [] =
     (Exit, [LogSetURL ''http://localhost:8086'', LogSetDebug False,
             BrokerOpen ''/b'' (Some ''permission denied''),
             LogFatal ''failed to open broker at %s : %s'']) \<and>
   openServer env_no_client_urls demo_config True True [] [] =
     (Exit, [ClientNew ''http://localhost:8086'', ClientSetURLs [''http://localhost:8086''],
             ClientOpen ''/d/messaging'' None, ClientURLs [],
             LogFatal ''messaging client has no broker URLs''])"
  using startup_failure_is_fatal [of env_broker_locked "''/b''" "''http://localhost:8086''" True "[]"
     False "[]" Exit "[LogSetURL ''http://localhost:8086'', LogSetDebug False,
             BrokerOpen ''/b'' (Some ''permission denied''),
             LogFatal ''failed to open broker at %s : %s'']"
     env_no_client_urls demo_config True True "[]" "[]" Exit
     "[ClientNew ''http://localhost:8086'', ClientSetURLs [''http://localhost:8086''],
             ClientOpen ''/d/messaging'' None, ClientURLs [],
             LogFatal ''messaging client has no broker URLs'']"]
  by (simp add: env_broker_locked_def env_no_client_urls_def demo_env_def demo_config_def
        openBroker_def openServer_def proc_simps)

theorem startup_failure_exits_process:
  "openBroker env_broker_locked ''/b'' ''http://localhost:8086'' True [] False [] =
     (Exit, [LogSetURL ''http://localhost:8086'', LogSetDebug False,
             BrokerOpen ''/b'' (Some ''permission denied''),
             LogFatal ''failed to open broker at %s : %s''])"
  by (simp add: env_broker_locked_def demo_env_def openBroker_def proc_simps)

lemma openServer_client_events:
  "openServer E c initServer initBroker joinURLs h = (r, es) \<Longrightarrow>
     (\<exists>rest. es = ClientNew (DataURL c) #
                   ClientSetURLs (if joinURLs = [] then [Broker_URL E h] else joinURLs) # rest \<and>
              (\<forall>us. ClientSetURLs us \<notin> set rest)) \<and>
     (\<forall>us. ClientSetURLs us \<in> set es \<longrightarrow> us \<noteq> []) \<and>
     (ClientURLs [] \<in> set es \<longrightarrow>
        r = Exit \<and> last es = LogFatal ''messaging client has no broker URLs'' \<and>
        (\<forall>e\<in>set es. \<not> (\<exists>p x. e = ServerOpen p x))) \<and>
     (r = Return () \<longrightarrow> (\<exists>us. us \<noteq> [] \<and> ClientURLs us \<in> set es))"
proof -
  assume os: "openServer E c initServer initBroker joinURLs h = (r, es)"
  let ?goal = "\<lambda>r es. (\<exists>rest. es = ClientNew (DataURL c) #
                   ClientSetURLs (if joinURLs = [] then [Broker_URL E h] else joinURLs) # rest \<and>
              (\<forall>us. ClientSetURLs us \<notin> set rest)) \<and>
     (\<forall>us. ClientSetURLs us \<in> set es \<longrightarrow> us \<noteq> []) \<and>
     (ClientURLs [] \<in> set es \<longrightarrow>
        r = Exit \<and> last es = LogFatal ''messaging client has no broker URLs'' \<and>
        (\<forall>e\<in>set es. \<not> (\<exists>p x. e = ServerOpen p x))) \<and>
     (r = Return () \<longrightarrow> (\<exists>us. us \<noteq> [] \<and> ClientURLs us \<in> set es))"
  from openServer_cases[OF os] show ?thesis
  proof (elim disjE exE conjE, goal_cases)
    case (1 err)
    then show ?case by simp
  next
    case 2
    then show ?case by simp
  next
    case (3 cus err)
    then show ?case by simp
  next
    case (4 cus pre)
    then show ?case by simp
  next
    case (5 cus pre bu)
    then show ?case by simp
  next
    case (6 cus pre bu err)
    then show ?case by simp
  next
    case (7 cus pre es')
    have k: "\<forall>e\<in>set es'. (\<forall>us. e \<noteq> ClientSetURLs us) \<and> (\<forall>us. e \<noteq> ClientURLs us)"
      using joinServer_kinds[of _ E "DataURL c" joinURLs "h @ pre"] 7 by auto
    have a: "\<exists>rest. es = ClientNew (DataURL c) #
                   ClientSetURLs (if joinURLs = [] then [Broker_URL E h] else joinURLs) # rest \<and>
              (\<forall>us. ClientSetURLs us \<notin> set rest)"
      using k 7 by auto
    have b: "\<forall>us. ClientSetURLs us \<in> set es \<longrightarrow> us \<noteq> []"
      using k 7 by auto
    have c: "ClientURLs [] \<notin> set es" using k 7 by auto
    have d: "\<exists>us. us \<noteq> [] \<and> ClientURLs us \<in> set es"
      using 7 by auto
    from a b c d show ?case by blast
  qed
qed

subsection \<open>The broker part and the server part of a run\<close>

text \<open>
  The events of a run that concern the broker are those of its call of \<open>openBroker\<close>,
  and those that concern the server are those of its call of \<open>openServer\<close>.
\<close>

lemma of_broker_startup: "of_broker e \<Longrightarrow> startup e"
  by (cases e) simp_all

lemma of_server_startup: "of_server e \<Longrightarrow> startup e"
  by (cases e) simp_all

lemma filter_of_broker_startup: "filter of_broker (filter startup es) = filter of_broker es"
  by (induction es) (auto dest: of_broker_startup)

lemma filter_of_server_startup: "filter of_server (filter startup es) = filter of_server es"
  by (induction es) (auto dest: of_server_startup)

lemma joinLog_only: "\<forall>e\<in>set (snd (joinLog E urls h)). \<not> of_server e"
proof
  fix e assume "e \<in> set (snd (joinLog E urls h))"
  from joinLog_kinds[OF this] show "\<not> of_server e" by auto
qed

lemma joinServer_only: "\<forall>e\<in>set (snd (joinServer E u urls h)). \<not> of_broker e"
proof
  fix e assume "e \<in> set (snd (joinServer E u urls h))"
  from joinServer_kinds[OF this] show "\<not> of_broker e" by auto
qed

lemma openBroker_only: "\<forall>e\<in>set (snd (openBroker E path u init urls rt h)). \<not> of_server e"
  unfolding openBroker_def
  by (intro only_intros joinLog_only) simp_all

lemma openServer_only: "\<forall>e\<in>set (snd (openServer E c initServer initBroker urls h)). \<not> of_broker e"
  unfolding openServer_def
  by (intro only_intros joinServer_only) simp_all

lemma filter_none: "\<forall>e\<in>set es. \<not> P e \<Longrightarrow> filter P es = []"
  by (induction es) auto

lemma broker_proj:
  "filter startup es = filter startup es' \<Longrightarrow> filter of_broker es = filter of_broker es'"
  by (metis filter_of_broker_startup)

lemma broker_proj2:
  "filter startup es = filter startup a @ filter startup b \<Longrightarrow>
   filter of_broker es = filter of_broker a @ filter of_broker b"
  by (metis filter_append filter_of_broker_startup)

lemma server_proj:
  "filter startup es = filter startup es' \<Longrightarrow> filter of_server es = filter of_server es'"
  by (metis filter_of_server_startup)

lemma server_proj2:
  "filter startup es = filter startup a @ filter startup b \<Longrightarrow>
   filter of_server es = filter of_server a @ filter of_server b"
  by (metis filter_append filter_of_server_startup)

lemma broker_proj0: "filter startup es = [] \<Longrightarrow> filter of_broker es = []"
  using broker_proj[of es "[]"] by simp

lemma server_proj0: "filter startup es = [] \<Longrightarrow> filter of_server es = []"
  using server_proj[of es "[]"] by simp

lemma openServer_no_broker: "openServer E c a b urls hs = (rs, ess) \<Longrightarrow> filter of_broker ess = []"
  using openServer_only[of E c a b urls hs] by (intro filter_none) simp

lemma openBroker_no_server:
  "openBroker E p u i urls rt hb = (rb, esb) \<Longrightarrow> filter of_server esb = []"
  using openBroker_only[of E p u i urls rt hb] by (intro filter_none) simp

lemma Run_broker_events:
  assumes run: "Run E c join v h = (r, es)"
  shows "filter of_broker es = [] \<or>
    (\<exists>urls hb rb esb. (urls = [] \<longleftrightarrow> (if join = [] then JoinURLs c else join) = []) \<and>
       openBroker E (BrokerDir c) (BrokerURL c) (\<not> fileExists E (BrokerDir c)) urls
         (Logging_RaftTracing c) hb = (rb, esb) \<and>
       filter of_broker es = filter of_broker esb)"
  using Run_startup[OF run]
proof (elim disjE exE conjE, goal_cases)
  case 1
  then show ?case by (simp add: broker_proj0)
next
  case (2 urls hb rb esb)
  from 2(4) have "filter of_broker es = filter of_broker esb" by (rule broker_proj)
  with 2(1,2) show ?case
    apply -
    apply (rule disjI2)
    apply (rule exI)+
    apply (intro conjI)
    apply assumption+
    done
next
  case (3 urls hb rb esb hs rs ess)
  from 3(6) have "filter of_broker es = filter of_broker esb @ filter of_broker ess"
    by (rule broker_proj2)
  with openServer_no_broker[OF 3(4)] have "filter of_broker es = filter of_broker esb" by simp
  with 3(1,2) show ?case
    apply -
    apply (rule disjI2)
    apply (rule exI)+
    apply (intro conjI)
    apply assumption+
    done
qed

lemma Run_server_events:
  assumes run: "Run E c join v h = (r, es)"
  shows "(r = Exit \<and> filter of_server es = []) \<or>
    (\<exists>urls hs rs ess. (urls = [] \<longleftrightarrow> (if join = [] then JoinURLs c else join) = []) \<and>
       openServer E c (\<not> fileExists E (DataDir c) \<or> \<not> fileExists E (BrokerDir c))
         (\<not> fileExists E (BrokerDir c)) urls hs = (rs, ess) \<and>
       (rs = Exit \<longrightarrow> r = Exit) \<and>
       filter of_server es = filter of_server ess)"
  using Run_startup[OF run]
proof (elim disjE exE conjE, goal_cases)
  case 1
  then show ?case by (simp add: server_proj0)
next
  case (2 urls hb rb esb)
  from 2(4) have "filter of_server es = filter of_server esb" by (rule server_proj)
  with openBroker_no_server[OF 2(2)] 2(3) show ?case by simp
next
  case (3 urls hb rb esb hs rs ess)
  from 3(6) have "filter of_server es = filter of_server esb @ filter of_server ess"
    by (rule server_proj2)
  with openBroker_no_server[OF 3(2)] have "filter of_server es = filter of_server ess" by simp
  with 3(1,4,5) show ?case
    apply -
    apply (rule disjI2)
    apply (rule exI)+
    apply (intro conjI)
    apply assumption+
    done
qed

lemma broker_mem:
  assumes "of_broker e" "filter of_broker es = filter of_broker es'"
  shows "e \<in> set es \<longleftrightarrow> e \<in> set es'"
proof -
  have "e \<in> set es \<longleftrightarrow> e \<in> set (filter of_broker es)" using assms(1) by simp
  also have "\<dots> \<longleftrightarrow> e \<in> set (filter of_broker es')" by (simp only: assms(2))
  also have "\<dots> \<longleftrightarrow> e \<in> set es'" using assms(1) by simp
  finally show ?thesis .
qed

lemma server_mem:
  assumes "of_server e" "filter of_server es = filter of_server es'"
  shows "e \<in> set es \<longleftrightarrow> e \<in> set es'"
proof -
  have "e \<in> set es \<longleftrightarrow> e \<in> set (filter of_server es)" using assms(1) by simp
  also have "\<dots> \<longleftrightarrow> e \<in> set (filter of_server es')" by (simp only: assms(2))
  also have "\<dots> \<longleftrightarrow> e \<in> set es'" using assms(1) by simp
  finally show ?thesis .
qed

lemma broker_ex:
  assumes "filter of_broker es = filter of_broker es'" "\<And>e. P e \<Longrightarrow> of_broker e"
  shows "(\<exists>e\<in>set es. P e) \<longleftrightarrow> (\<exists>e\<in>set es'. P e)"
  using assms broker_mem by blast

lemma server_ex:
  assumes "filter of_server es = filter of_server es'" "\<And>e. P e \<Longrightarrow> of_server e"
  shows "(\<exists>e\<in>set es. P e) \<longleftrightarrow> (\<exists>e\<in>set es'. P e)"
  using assms server_mem by blast

lemma is_LogInitialize_broker: "is_LogInitialize e \<Longrightarrow> of_broker e"
  by (cases e) simp_all

lemma is_LogJoin_broker: "is_LogJoin e \<Longrightarrow> of_broker e"
  by (cases e) simp_all

lemma is_ServerInitialize_server: "is_ServerInitialize e \<Longrightarrow> of_server e"
  by (cases e) simp_all

lemma is_ServerJoin_server: "is_ServerJoin e \<Longrightarrow> of_server e"
  by (cases e) simp_all

lemma openBroker_initialize_iff:
  assumes ob: "openBroker E path u init urls rt h = (r, es)"
  shows "((\<exists>e\<in>set es. is_LogInitialize e) \<longleftrightarrow>
            init \<and> urls = [] \<and> BrokerOpen path None \<in> set es \<and>
            LogOpen (filepath_Join E path ''raft'') None \<in> set es) \<and>
         length (filter is_LogInitialize es) \<le> 1"
  using openBroker_cases[OF ob]
proof (elim disjE exE conjE, goal_cases)
  case (1 err)
  then show ?case by simp
next
  case (2 err)
  then show ?case by simp
next
  case 3
  then show ?case by simp
next
  case 4
  then show ?case by simp
next
  case (5 err)
  then show ?case by simp
next
  case (6 es')
  have q: "\<forall>e\<in>set es'. \<not> is_LogInitialize e"
    using joinLog_quiet_steps[of _ E urls] 6(4) by (metis snd_conv)
  then have "filter is_LogInitialize es' = []" by (rule filter_none)
  with q 6(1,2,3) show ?case by simp
qed

lemma openBroker_not_initializing:
  assumes ob: "openBroker E path u False urls rt h = (r, es)"
  shows "(\<forall>e\<in>set es. \<not> is_LogInitialize e \<and> \<not> is_LogJoin e) \<and> (\<exists>x. BrokerOpen path x \<in> set es)"
  using openBroker_cases[OF ob]
  by (elim disjE exE conjE) simp_all

lemma joinServer_return_joined:
  assumes "joinServer E u urls h = (Return (), es)"
  shows "\<exists>e\<in>set es. is_ServerJoin e"
proof -
  from joinServer_shape[OF assms] have "server_joins es \<noteq> []" by simp
  then show ?thesis by (induction es rule: server_joins.induct) auto
qed

lemma openServer_bootstrap:
  assumes os: "openServer E c initServer initBroker urls h = (r, es)"
  shows "((\<exists>e\<in>set es. is_ServerInitialize e) \<longrightarrow> initServer \<and> initBroker \<and> urls = []) \<and>
         ((\<exists>e\<in>set es. is_ServerJoin e) \<longrightarrow> initServer \<and> urls \<noteq> []) \<and>
         (r = Return () \<and> initServer \<and> (initBroker \<or> urls \<noteq> []) \<longrightarrow>
            (\<exists>e\<in>set es. is_ServerInitialize e \<or> is_ServerJoin e))"
  using openServer_cases[OF os]
proof (elim disjE exE conjE, goal_cases)
  case (1 err)
  then show ?case by simp
next
  case 2
  then show ?case by simp
next
  case (3 cus err)
  then show ?case by simp
next
  case (4 cus pre)
  then show ?case by auto
next
  case (5 cus pre bu)
  then show ?case by simp
next
  case (6 cus pre bu err)
  then show ?case by simp
next
  case (7 cus pre es')
  have q: "\<forall>e\<in>set es'. \<not> is_ServerInitialize e"
    using joinServer_quiet_steps[of _ E "DataURL c" urls] 7(6) by (metis snd_conv)
  have j: "r = Return () \<longrightarrow> (\<exists>e\<in>set es'. is_ServerJoin e)"
    using joinServer_return_joined[of E "DataURL c" urls "h @ pre" es'] 7(6) by simp
  from q j 7(1,2,3,4,5) show ?case by auto
qed

subsection \<open>The messaging client\<close>

lemma openServer_client_answers:
  assumes os: "openServer E c initServer initBroker joinURLs h = (r, es)"
  defines "seed \<equiv> (if joinURLs = [] then [Broker_URL E h] else joinURLs)"
  defines "mf \<equiv> filepath_Join E (Data_Dir c) (messagingClientFile E)"
  defines "opened \<equiv> Client_Open E (h @ [ClientNew (DataURL c), ClientSetURLs seed]) mf"
  defines "held \<equiv> Client_URLs E (h @ [ClientNew (DataURL c), ClientSetURLs seed,
                                        ClientOpen mf None])"
  shows "(opened \<noteq> None \<and> r = Exit \<and>
            es = [ClientNew (DataURL c), ClientSetURLs seed, ClientOpen mf opened,
                  LogFatal ''messaging client error: %s'']) \<or>
         (opened = None \<and> held = [] \<and> r = Exit \<and>
            es = [ClientNew (DataURL c), ClientSetURLs seed, ClientOpen mf None, ClientURLs [],
                  LogFatal ''messaging client has no broker URLs'']) \<or>
         (opened = None \<and> held \<noteq> [] \<and>
            (\<exists>x rest. es = ClientNew (DataURL c) # ClientSetURLs seed # ClientOpen mf None #
                           ClientURLs held # ServerOpen (Data_Dir c) x # rest))"
proof (cases opened)
  case (Some err)
  with os show ?thesis
    unfolding opened_def seed_def mf_def
    by (auto simp: openServer_def proc_simps split: if_splits)
next
  case None
  show ?thesis
  proof (cases "held = []")
    case True
    with None os show ?thesis
      unfolding opened_def seed_def mf_def held_def
      by (auto simp: openServer_def proc_simps split: if_splits)
  next
    case False
    with None os show ?thesis
      unfolding opened_def seed_def mf_def held_def
      by (auto simp: openServer_def proc_simps split: if_splits prod.splits outcome.splits)
  qed
qed

lemma openServer_after_open:
  assumes os: "openServer E c initServer initBroker joinURLs h = (r, es)"
    and es: "es = ClientNew a # ClientSetURLs b # ClientOpen m None # ClientURLs cu #
                  ServerOpen d x # rest"
  shows "\<forall>e\<in>set rest. of_server e \<longrightarrow> is_ServerInitialize e \<or> is_ServerJoin e"
  using openServer_cases[OF os]
proof (elim disjE exE conjE, goal_cases)
  case (1 err)
  with es show ?case by simp
next
  case 2
  with es show ?case by simp
next
  case (3 cus err)
  with es show ?case by auto
next
  case (4 cus pre)
  with es show ?case by auto
next
  case (5 cus pre bu)
  with es show ?case by auto
next
  case (6 cus pre bu err)
  with es show ?case by auto
next
  case (7 cus pre es')
  have k: "\<forall>e\<in>set es'. of_server e \<longrightarrow> is_ServerJoin e"
  proof (intro ballI impI)
    fix e assume "e \<in> set es'" "of_server e"
    with joinServer_kinds[of e E "DataURL c" joinURLs "h @ pre"] 7(6)
    show "is_ServerJoin e" by auto
  qed
  from 7(2,5) es have "rest = LogPrintf ''data server opened at %s'' # es'" by simp
  with k show ?case by simp
qed

text \<open>
  C7. \<open>openServer\<close> first creates the messaging client and sets its URLs, once: to the
  join URLs when there are some, to the broker's own URL otherwise, so the list it sets
  is never empty. It then opens the client, and only after that reads the URLs the opened
  client holds: the trace starts with \<open>ClientNew\<close>, \<open>ClientSetURLs\<close>, \<open>ClientOpen\<close>, in
  this order, and, when the open succeeded, goes on with \<open>ClientURLs\<close> carrying what the
  client answers after the open. If that list is empty the process ends there with the
  fatal message, before the server is opened; otherwise the server is opened next and the
  client is not touched again. When \<open>openServer\<close> returns, the client was opened and held
  at least one URL.
\<close>
theorem openServer_client_urls:
  assumes os: "openServer E c initServer initBroker joinURLs h = (r, es)"
  defines "seed \<equiv> (if joinURLs = [] then [Broker_URL E h] else joinURLs)"
  defines "mf \<equiv> filepath_Join E (Data_Dir c) (messagingClientFile E)"
  defines "opened \<equiv> Client_Open E (h @ [ClientNew (DataURL c), ClientSetURLs seed]) mf"
  defines "held \<equiv> Client_URLs E (h @ [ClientNew (DataURL c), ClientSetURLs seed,
                                        ClientOpen mf None])"
  shows "seed \<noteq> [] \<and>
     (\<exists>rest. es = ClientNew (DataURL c) # ClientSetURLs seed # ClientOpen mf opened # rest \<and>
        (opened \<noteq> None \<longrightarrow> r = Exit \<and> rest = [LogFatal ''messaging client error: %s'']) \<and>
        (opened = None \<longrightarrow>
           (\<exists>rest'. rest = ClientURLs held # rest' \<and>
              (held = [] \<longrightarrow>
                 r = Exit \<and> rest' = [LogFatal ''messaging client has no broker URLs'']) \<and>
              (held \<noteq> [] \<longrightarrow>
                 (\<exists>x rest''. rest' = ServerOpen (Data_Dir c) x # rest'' \<and>
                    (\<forall>e\<in>set rest''. of_server e \<longrightarrow>
                       is_ServerInitialize e \<or> is_ServerJoin e)))))) \<and>
     (r = Return () \<longrightarrow> opened = None \<and> held \<noteq> []) \<and>
     (\<forall>us. ClientSetURLs us \<in> set es \<longrightarrow> us \<noteq> []) \<and>
     (ClientURLs [] \<in> set es \<longrightarrow>
        r = Exit \<and> last es = LogFatal ''messaging client has no broker URLs'' \<and>
        (\<forall>e\<in>set es. \<not> (\<exists>p x. e = ServerOpen p x)))"
proof -
  have seed: "seed \<noteq> []" by (simp add: seed_def)
  have old: "(\<forall>us. ClientSetURLs us \<in> set es \<longrightarrow> us \<noteq> []) \<and>
     (ClientURLs [] \<in> set es \<longrightarrow>
        r = Exit \<and> last es = LogFatal ''messaging client has no broker URLs'' \<and>
        (\<forall>e\<in>set es. \<not> (\<exists>p x. e = ServerOpen p x)))"
    using openServer_client_events[OF os] by simp
  from openServer_client_answers[OF os, folded seed_def mf_def, folded opened_def held_def]
  consider (noopen) "opened \<noteq> None" "r = Exit"
      "es = [ClientNew (DataURL c), ClientSetURLs seed, ClientOpen mf opened,
             LogFatal ''messaging client error: %s'']"
    | (nourl) "opened = None" "held = []" "r = Exit"
      "es = [ClientNew (DataURL c), ClientSetURLs seed, ClientOpen mf None, ClientURLs [],
             LogFatal ''messaging client has no broker URLs'']"
    | (go) x rest where "opened = None" "held \<noteq> []"
      "es = ClientNew (DataURL c) # ClientSetURLs seed # ClientOpen mf None #
            ClientURLs held # ServerOpen (Data_Dir c) x # rest"
    by blast
  then have new: "(\<exists>rest. es = ClientNew (DataURL c) # ClientSetURLs seed # ClientOpen mf opened # rest \<and>
        (opened \<noteq> None \<longrightarrow> r = Exit \<and> rest = [LogFatal ''messaging client error: %s'']) \<and>
        (opened = None \<longrightarrow>
           (\<exists>rest'. rest = ClientURLs held # rest' \<and>
              (held = [] \<longrightarrow>
                 r = Exit \<and> rest' = [LogFatal ''messaging client has no broker URLs'']) \<and>
              (held \<noteq> [] \<longrightarrow>
                 (\<exists>x rest''. rest' = ServerOpen (Data_Dir c) x # rest'' \<and>
                    (\<forall>e\<in>set rest''. of_server e \<longrightarrow>
                       is_ServerInitialize e \<or> is_ServerJoin e)))))) \<and>
     (r = Return () \<longrightarrow> opened = None \<and> held \<noteq> [])"
  proof cases
    case noopen
    then show ?thesis by simp
  next
    case nourl
    then show ?thesis by simp
  next
    case go
    from openServer_after_open[OF os go(3)] go show ?thesis by simp
  qed
  from seed new old show ?thesis by (intro conjI) (elim conjE, assumption)+
qed

theorem openServer_client_urls_witness:
  "Client_URLs env_client_file_empty [] = [''http://localhost:8086''] \<and>
   openServer env_client_file_empty demo_config True True [] [] =
     (Exit, [ClientNew ''http://localhost:8086'', ClientSetURLs [''http://localhost:8086''],
             ClientOpen ''/d/messaging'' None, ClientURLs [],
             LogFatal ''messaging client has no broker URLs'']) \<and>
   openServer demo_env demo_config True True [''http://a'', ''http://b''] [] =
     (Return (), [ClientNew ''http://localhost:8086'', ClientSetURLs [''http://a'', ''http://b''],
        ClientOpen ''/d/messaging'' None, ClientURLs [''http://localhost:8086''],
        ServerOpen ''/d'' None, LogPrintf ''data server opened at %s'',
        ServerJoin ''http://localhost:8086'' ''http://a'' None,
        LogPrintf ''join: connected data node to %s''])"
  using openServer_client_urls [where E = env_client_file_empty and c = demo_config
      and initServer = True and initBroker = True and joinURLs = "[]" and h = "[]"
      and r = Exit
      and es = "[ClientNew ''http://localhost:8086'', ClientSetURLs [''http://localhost:8086''],
             ClientOpen ''/d/messaging'' None, ClientURLs [],
             LogFatal ''messaging client has no broker URLs'']"]
    openServer_client_urls [where E = demo_env and c = demo_config
      and initServer = True and initBroker = True and joinURLs = "[''http://a'', ''http://b'']"
      and h = "[]" and r = "Return ()"
      and es = "[ClientNew ''http://localhost:8086'', ClientSetURLs [''http://a'', ''http://b''],
        ClientOpen ''/d/messaging'' None, ClientURLs [''http://localhost:8086''],
        ServerOpen ''/d'' None, LogPrintf ''data server opened at %s'',
        ServerJoin ''http://localhost:8086'' ''http://a'' None,
        LogPrintf ''join: connected data node to %s'']"]
  by (simp add: env_client_file_empty_def demo_env_def demo_config_def openServer_def proc_simps)

subsection \<open>Initialize and Join in a whole run\<close>

lemmas run_defs = Run_def Run_flags_def Run_listen_def Run_policies_def Run_services_def
  Run_reporting_def must_def service_def openBroker_def openServer_def parseURLs_def
  fileExists_def

lemma Run_LogInitialize_iff:
  assumes run: "Run E c join v h = (r, es)"
  shows "(\<exists>e\<in>set es. is_LogInitialize e) \<longleftrightarrow>
           \<not> fileExists E (BrokerDir c) \<and> join = [] \<and> JoinURLs c = [] \<and>
           BrokerOpen (BrokerDir c) None \<in> set es \<and>
           LogOpen (filepath_Join E (BrokerDir c) ''raft'') None \<in> set es"
  using Run_broker_events[OF run]
proof (elim disjE exE conjE, goal_cases)
  case 1
  have a: "\<not> (\<exists>e\<in>set es. is_LogInitialize e)"
    using broker_ex[of es "[]" is_LogInitialize] 1 is_LogInitialize_broker by simp
  have b: "BrokerOpen (BrokerDir c) None \<notin> set es"
    using broker_mem[of "BrokerOpen (BrokerDir c) None" es "[]"] 1 by simp
  from a b show ?case by simp
next
  case (2 urls hb rb esb)
  have a: "(\<exists>e\<in>set es. is_LogInitialize e) \<longleftrightarrow> (\<exists>e\<in>set esb. is_LogInitialize e)"
    using 2(3) is_LogInitialize_broker by (rule broker_ex)
  have b: "BrokerOpen (BrokerDir c) None \<in> set es \<longleftrightarrow> BrokerOpen (BrokerDir c) None \<in> set esb"
    using 2(3) by (intro broker_mem) simp_all
  have d: "LogOpen (filepath_Join E (BrokerDir c) ''raft'') None \<in> set es \<longleftrightarrow>
           LogOpen (filepath_Join E (BrokerDir c) ''raft'') None \<in> set esb"
    using 2(3) by (intro broker_mem) simp_all
  have e: "urls = [] \<longleftrightarrow> join = [] \<and> JoinURLs c = []" using 2(1) by (simp split: if_splits)
  show ?case unfolding a b d using openBroker_initialize_iff[OF 2(2)] e by simp
qed

lemma Run_no_broker_event:
  assumes run: "Run E c join v h = (r, es)"
    and P: "\<And>e. P e \<Longrightarrow> of_broker e"
    and ob: "\<And>urls hb rb esb.
       openBroker E (BrokerDir c) (BrokerURL c) (\<not> fileExists E (BrokerDir c)) urls
         (Logging_RaftTracing c) hb = (rb, esb) \<Longrightarrow> \<not> (\<exists>e\<in>set esb. P e)"
  shows "\<not> (\<exists>e\<in>set es. P e)"
  using Run_broker_events[OF run]
proof (elim disjE exE conjE, goal_cases)
  case 1
  show ?case using broker_ex[of es "[]" P] 1 P by simp
next
  case (2 urls hb rb esb)
  have "(\<exists>e\<in>set es. P e) \<longleftrightarrow> (\<exists>e\<in>set esb. P e)"
    using 2(3) P by (rule broker_ex)
  with ob[OF 2(2)] show ?case by simp
qed

lemma Run_existing_broker:
  assumes ex: "fileExists E (BrokerDir c)" and run: "Run E c join v h = (r, es)"
  shows "(\<forall>e\<in>set es. \<not> is_LogInitialize e \<and> \<not> is_LogJoin e \<and> \<not> is_ServerInitialize e) \<and>
         ((\<exists>e\<in>set es. is_ServerJoin e) \<longrightarrow>
            \<not> fileExists E (DataDir c) \<and> (if join = [] then JoinURLs c else join) \<noteq> [])"
proof -
  have b1: "\<not> (\<exists>e\<in>set es. is_LogInitialize e)"
    using run is_LogInitialize_broker
  proof (rule Run_no_broker_event)
    fix urls hb rb esb
    assume "openBroker E (BrokerDir c) (BrokerURL c) (\<not> fileExists E (BrokerDir c)) urls
         (Logging_RaftTracing c) hb = (rb, esb)"
    with ex openBroker_not_initializing[of E _ _ urls _ hb rb esb]
    show "\<not> (\<exists>e\<in>set esb. is_LogInitialize e)" by simp
  qed
  have b2: "\<not> (\<exists>e\<in>set es. is_LogJoin e)"
    using run is_LogJoin_broker
  proof (rule Run_no_broker_event)
    fix urls hb rb esb
    assume "openBroker E (BrokerDir c) (BrokerURL c) (\<not> fileExists E (BrokerDir c)) urls
         (Logging_RaftTracing c) hb = (rb, esb)"
    with ex openBroker_not_initializing[of E _ _ urls _ hb rb esb]
    show "\<not> (\<exists>e\<in>set esb. is_LogJoin e)" by simp
  qed
  have s1: "\<not> (\<exists>e\<in>set es. is_ServerInitialize e)"
    using Run_server_events[OF run]
  proof (elim disjE exE conjE, goal_cases)
    case 1
    show ?case using server_ex[of es "[]" is_ServerInitialize] 1 is_ServerInitialize_server by simp
  next
    case (2 urls hs rs ess)
    have "(\<exists>e\<in>set es. is_ServerInitialize e) \<longleftrightarrow> (\<exists>e\<in>set ess. is_ServerInitialize e)"
      using 2(4) is_ServerInitialize_server by (rule server_ex)
    with openServer_bootstrap[OF 2(2)] ex show ?case by simp
  qed
  have s2: "(\<exists>e\<in>set es. is_ServerJoin e) \<longrightarrow>
            \<not> fileExists E (DataDir c) \<and> (if join = [] then JoinURLs c else join) \<noteq> []"
    using Run_server_events[OF run]
  proof (elim disjE exE conjE, goal_cases)
    case 1
    show ?case using server_ex[of es "[]" is_ServerJoin] 1 is_ServerJoin_server by simp
  next
    case (2 urls hs rs ess)
    have "(\<exists>e\<in>set es. is_ServerJoin e) \<longleftrightarrow> (\<exists>e\<in>set ess. is_ServerJoin e)"
      using 2(4) is_ServerJoin_server by (rule server_ex)
    with openServer_bootstrap[OF 2(2)] ex 2(1) show ?case by simp
  qed
  from b1 b2 s1 s2 show ?thesis by blast
qed

lemma Run_new_broker_server:
  assumes nb: "\<not> fileExists E (BrokerDir c)" and run: "Run E c join v h = (Return (), es)"
  shows "\<exists>e\<in>set es. is_ServerInitialize e \<or> is_ServerJoin e"
  using Run_server_events[OF run]
proof (elim disjE exE conjE, goal_cases)
  case 1
  then show ?case by simp
next
  case (2 urls hs rs ess)
  have rs: "rs = Return ()" using 2(3) by (cases rs) simp_all
  have "(\<exists>e\<in>set es. is_ServerInitialize e \<or> is_ServerJoin e) \<longleftrightarrow>
        (\<exists>e\<in>set ess. is_ServerInitialize e \<or> is_ServerJoin e)"
    using 2(4) by (rule server_ex) (auto dest: is_ServerInitialize_server is_ServerJoin_server)
  with openServer_bootstrap[OF 2(2)] nb rs show ?case by simp
qed

text \<open>
  C3, as the code has it. \<open>openBroker\<close> calls \<open>Initialize\<close> on the raft log, once, exactly when
  it is initializing with no join URL and both the broker and the raft log have opened
  without error; a failed open ends the process before. In a whole run that is: the
  broker directory is missing, neither the flag nor the configuration gives a join URL,
  and both opens have succeeded.
\<close>
theorem initialize_only_for_new_cluster:
  "(openBroker E path u init urls rt h = (r, es) \<longrightarrow>
      ((\<exists>e\<in>set es. is_LogInitialize e) \<longleftrightarrow>
         init \<and> urls = [] \<and> BrokerOpen path None \<in> set es \<and>
         LogOpen (filepath_Join E path ''raft'') None \<in> set es) \<and>
      length (filter is_LogInitialize es) \<le> 1) \<and>
   (Run E' c join v h' = (r', es') \<longrightarrow>
      ((\<exists>e\<in>set es'. is_LogInitialize e) \<longleftrightarrow>
         \<not> fileExists E' (BrokerDir c) \<and> join = [] \<and> JoinURLs c = [] \<and>
         BrokerOpen (BrokerDir c) None \<in> set es' \<and>
         LogOpen (filepath_Join E' (BrokerDir c) ''raft'') None \<in> set es'))"
proof (rule conjI)
  show "openBroker E path u init urls rt h = (r, es) \<longrightarrow>
      ((\<exists>e\<in>set es. is_LogInitialize e) \<longleftrightarrow>
         init \<and> urls = [] \<and> BrokerOpen path None \<in> set es \<and>
         LogOpen (filepath_Join E path ''raft'') None \<in> set es) \<and>
      length (filter is_LogInitialize es) \<le> 1"
    by (rule impI) (erule openBroker_initialize_iff)
  show "Run E' c join v h' = (r', es') \<longrightarrow>
      ((\<exists>e\<in>set es'. is_LogInitialize e) \<longleftrightarrow>
         \<not> fileExists E' (BrokerDir c) \<and> join = [] \<and> JoinURLs c = [] \<and>
         BrokerOpen (BrokerDir c) None \<in> set es' \<and>
         LogOpen (filepath_Join E' (BrokerDir c) ''raft'') None \<in> set es')"
    by (rule impI) (erule Run_LogInitialize_iff)
qed

lemma demo_run:
  "Run demo_env demo_config [] ''0.9'' [] =
    (Return (),
  [LogPrintf ''influxdb started, version %s, commit %s'',
   LogPrintf ''Broker directory missing. Need to create a broker.'',
   LogPrintf ''Data directory missing. Need to create data directory.'',
   LogSetURL ''http://localhost:8086'', LogSetDebug False,
   BrokerOpen ''/b'' None, LogPrintf ''broker opened at %s'',
   LogOpen ''/b/raft'' None, LogInitialize None, NetListen '':8086'' None,
   Spawn ''http.Serve(listener, h)'',
   LogPrintf ''TCP server listening on %s'',
   Invoke ''b.RunContinuousQueryLoop'', ClientNew ''http://localhost:8086'',
   ClientSetURLs [''http://localhost:8086''],
   ClientOpen ''/d/messaging'' None, ClientURLs [''http://localhost:8086''],
   ServerOpen ''/d'' None, LogPrintf ''data server opened at %s'',
   ServerInitialize ''http://localhost:8086'' None,
   Invoke ''s.SetAuthenticationEnabled'',
   Call ''s.StartRetentionPolicyEnforcement'' None,
   LogPrintf
    ''broker enforcing retention policies with check interval of %s'',
   Call ''s.StartShardGroupsPreCreate'' None,
   LogPrintf ''shard group pre-create with check interval of %s'',
   Spawn ''http.ListenAndServe(config.SnapshotAddr(), ...)'',
   LogPrintf ''snapshot endpoint listening on %s'',
   LogPrintf ''starting admin server on %s'', Invoke ''admin.NewServer'',
   Spawn ''a.ListenAndServe()''])"
  by (simp add: run_defs demo_env_def demo_config_def proc_simps)

theorem initialize_only_for_new_cluster_witness:
  "(\<exists>e\<in>set (snd (Run demo_env demo_config [] ''0.9'' [])). is_LogInitialize e) \<and>
   \<not> fileExists demo_env (BrokerDir demo_config) \<and>
   \<not> (\<exists>e\<in>set (snd (Run env_restart demo_config [] ''0.9'' [])). is_LogInitialize e) \<and>
   length (filter is_LogInitialize
     (snd (openBroker demo_env ''/b'' ''http://localhost:8086'' True [] False []))) \<le> 1"
  using initialize_only_for_new_cluster [of demo_env "''/b''" "''http://localhost:8086''" True "[]"
      False "[]" "fst (openBroker demo_env ''/b'' ''http://localhost:8086'' True [] False [])"
      "snd (openBroker demo_env ''/b'' ''http://localhost:8086'' True [] False [])"
      demo_env demo_config "[]" "''0.9''" "[]"
      "fst (Run demo_env demo_config [] ''0.9'' [])" "snd (Run demo_env demo_config [] ''0.9'' [])"]
    initialize_only_for_new_cluster [of demo_env "''/b''" "''http://localhost:8086''" True "[]"
      False "[]" "fst (openBroker demo_env ''/b'' ''http://localhost:8086'' True [] False [])"
      "snd (openBroker demo_env ''/b'' ''http://localhost:8086'' True [] False [])"
      env_restart demo_config "[]" "''0.9''" "[]"
      "fst (Run env_restart demo_config [] ''0.9'' [])" "snd (Run env_restart demo_config [] ''0.9'' [])"]
  by (simp add: demo_run) (simp add: fileExists_def env_restart_def demo_env_def demo_config_def)

theorem open_failure_skips_initialize:
  "\<not> fileExists env_raft_locked (BrokerDir demo_config) \<and> JoinURLs demo_config = [] \<and>
   Run env_raft_locked demo_config [] ''0.9'' [] =
     (Exit, [LogPrintf ''influxdb started, version %s, commit %s'',
             LogPrintf ''Broker directory missing. Need to create a broker.'',
             LogPrintf ''Data directory missing. Need to create data directory.'',
             LogSetURL ''http://localhost:8086'', LogSetDebug False,
             BrokerOpen ''/b'' None, LogPrintf ''broker opened at %s'',
             LogOpen ''/b/raft'' (Some ''permission denied''), LogFatal ''raft: %s''])"
  by (simp add: run_defs env_raft_locked_def demo_env_def demo_config_def proc_simps)

text \<open>
  C1, as the code has it. With \<open>initializing\<close> false, \<open>openBroker\<close> opens the broker and
  calls neither \<open>Initialize\<close> nor \<open>Join\<close> on the raft log, whatever the join URLs. A run
  that finds the broker directory calls neither of them, nor \<open>Initialize\<close> on the server.
  The join URLs are still used by \<open>openServer\<close>, which sets them on the messaging client
  and calls the server's \<open>Join\<close>; in such a run that call is made only when the data
  directory is missing and join URLs were given.
\<close>
theorem existing_broker_state_is_kept:
  "(openBroker E path u False urls rt h = (r, es) \<longrightarrow>
      (\<forall>e\<in>set es. \<not> is_LogInitialize e \<and> \<not> is_LogJoin e) \<and>
      (\<exists>x. BrokerOpen path x \<in> set es)) \<and>
   (fileExists E' (BrokerDir c) \<and> Run E' c join v h' = (r', es') \<longrightarrow>
      (\<forall>e\<in>set es'. \<not> is_LogInitialize e \<and> \<not> is_LogJoin e \<and> \<not> is_ServerInitialize e) \<and>
      ((\<exists>e\<in>set es'. is_ServerJoin e) \<longrightarrow>
         \<not> fileExists E' (DataDir c) \<and> (if join = [] then JoinURLs c else join) \<noteq> []))"
proof (rule conjI)
  show "openBroker E path u False urls rt h = (r, es) \<longrightarrow>
      (\<forall>e\<in>set es. \<not> is_LogInitialize e \<and> \<not> is_LogJoin e) \<and>
      (\<exists>x. BrokerOpen path x \<in> set es)"
    by (rule impI) (erule openBroker_not_initializing)
  show "fileExists E' (BrokerDir c) \<and> Run E' c join v h' = (r', es') \<longrightarrow>
      (\<forall>e\<in>set es'. \<not> is_LogInitialize e \<and> \<not> is_LogJoin e \<and> \<not> is_ServerInitialize e) \<and>
      ((\<exists>e\<in>set es'. is_ServerJoin e) \<longrightarrow>
         \<not> fileExists E' (DataDir c) \<and> (if join = [] then JoinURLs c else join) \<noteq> [])"
    by (rule impI, erule conjE) (rule Run_existing_broker)
qed

lemma restart_run:
  "filter startup (snd (Run env_restart demo_config ''http://a'' ''0.9'' [])) =
     [LogSetURL ''http://localhost:8086'', LogSetDebug False, BrokerOpen ''/b'' None,
      LogOpen ''/b/raft'' None, ClientNew ''http://localhost:8086'',
      ClientSetURLs [''http://a''], ClientOpen ''/d/messaging'' None,
      ClientURLs [''http://localhost:8086''], ServerOpen ''/d'' None,
      ServerJoin ''http://localhost:8086'' ''http://a'' None]"
  by (simp add: run_defs env_restart_def demo_env_def demo_config_def proc_simps)

theorem existing_broker_state_is_kept_witness:
  "fileExists env_restart (BrokerDir demo_config) \<and>
   \<not> (\<exists>e\<in>set (snd (Run env_restart demo_config ''http://a'' ''0.9'' [])).
      is_LogInitialize e \<or> is_LogJoin e \<or> is_ServerInitialize e) \<and>
   \<not> fileExists env_restart (DataDir demo_config)"
  using existing_broker_state_is_kept [of env_restart "''/b''" "''http://localhost:8086''" "[]"
      False "[]" "fst (openBroker env_restart ''/b'' ''http://localhost:8086'' False [] False [])"
      "snd (openBroker env_restart ''/b'' ''http://localhost:8086'' False [] False [])"
      env_restart demo_config "''http://a''" "''0.9''" "[]"
      "fst (Run env_restart demo_config ''http://a'' ''0.9'' [])"
      "snd (Run env_restart demo_config ''http://a'' ''0.9'' [])"]
  by (auto simp add: fileExists_def env_restart_def demo_env_def demo_config_def)

theorem join_urls_used_despite_broker_state:
  "fileExists env_restart (BrokerDir demo_config) \<and>
   filter startup (snd (Run env_restart demo_config ''http://a'' ''0.9'' [])) =
     [LogSetURL ''http://localhost:8086'', LogSetDebug False, BrokerOpen ''/b'' None,
      LogOpen ''/b/raft'' None, ClientNew ''http://localhost:8086'',
      ClientSetURLs [''http://a''], ClientOpen ''/d/messaging'' None,
      ClientURLs [''http://localhost:8086''], ServerOpen ''/d'' None,
      ServerJoin ''http://localhost:8086'' ''http://a'' None]"
  by (simp add: restart_run) (simp add: fileExists_def env_restart_def demo_env_def demo_config_def)

text \<open>
  C10. The flags of \<open>Run\<close>: \<open>initBroker\<close> is true when the broker directory is missing, and
  \<open>initServer\<close> is true when the data directory or the broker directory is missing, so
  \<open>initBroker\<close> implies \<open>initServer\<close>. Hence a run that finds no broker directory and
  returns has initialized or joined the data server, whether or not its data directory
  existed.
\<close>
theorem missing_broker_forces_server_init:
  "fst (Run_flags E c h) =
     Return (\<not> fileExists E (BrokerDir c),
             \<not> fileExists E (DataDir c) \<or> \<not> fileExists E (BrokerDir c)) \<and>
   (\<forall>initBroker initServer. fst (Run_flags E c h) = Return (initBroker, initServer) \<longrightarrow>
      (initBroker \<longrightarrow> initServer)) \<and>
   (\<not> fileExists E (BrokerDir c) \<and> Run E c join v h' = (Return (), es) \<longrightarrow>
      (\<exists>e\<in>set es. is_ServerInitialize e \<or> is_ServerJoin e))"
proof (intro conjI)
  show "fst (Run_flags E c h) =
     Return (\<not> fileExists E (BrokerDir c),
             \<not> fileExists E (DataDir c) \<or> \<not> fileExists E (BrokerDir c))"
    by (rule Run_flags_result)
  show "\<forall>initBroker initServer. fst (Run_flags E c h) = Return (initBroker, initServer) \<longrightarrow>
      (initBroker \<longrightarrow> initServer)"
    by (simp add: Run_flags_result)
  show "\<not> fileExists E (BrokerDir c) \<and> Run E c join v h' = (Return (), es) \<longrightarrow>
      (\<exists>e\<in>set es. is_ServerInitialize e \<or> is_ServerJoin e)"
    by (rule impI, erule conjE) (rule Run_new_broker_server)
qed

lemma data_kept_run:
  "Run env_data_kept demo_config [] ''0.9'' [] =
    (Return (),
  [LogPrintf ''influxdb started, version %s, commit %s'',
   LogPrintf ''Broker directory missing. Need to create a broker.'',
   LogSetURL ''http://localhost:8086'', LogSetDebug False,
   BrokerOpen ''/b'' None, LogPrintf ''broker opened at %s'',
   LogOpen ''/b/raft'' None, LogInitialize None, NetListen '':8086'' None,
   Spawn ''http.Serve(listener, h)'',
   LogPrintf ''TCP server listening on %s'',
   Invoke ''b.RunContinuousQueryLoop'', ClientNew ''http://localhost:8086'',
   ClientSetURLs [''http://localhost:8086''],
   ClientOpen ''/d/messaging'' None, ClientURLs [''http://localhost:8086''],
   ServerOpen ''/d'' None, LogPrintf ''data server opened at %s'',
   ServerInitialize ''http://localhost:8086'' None,
   Invoke ''s.SetAuthenticationEnabled'',
   Call ''s.StartRetentionPolicyEnforcement'' None,
   LogPrintf
    ''broker enforcing retention policies with check interval of %s'',
   Call ''s.StartShardGroupsPreCreate'' None,
   LogPrintf ''shard group pre-create with check interval of %s'',
   Spawn ''http.ListenAndServe(config.SnapshotAddr(), ...)'',
   LogPrintf ''snapshot endpoint listening on %s'',
   LogPrintf ''starting admin server on %s'', Invoke ''admin.NewServer'',
   Spawn ''a.ListenAndServe()''])"
  by (simp add: run_defs env_data_kept_def demo_env_def demo_config_def proc_simps)

theorem missing_broker_forces_server_init_witness:
  "fileExists env_data_kept (DataDir demo_config) \<and>
   \<not> fileExists env_data_kept (BrokerDir demo_config) \<and>
   fst (Run_flags env_data_kept demo_config []) = Return (True, True) \<and>
   (\<exists>e\<in>set (snd (Run env_data_kept demo_config [] ''0.9'' [])).
       is_ServerInitialize e \<or> is_ServerJoin e)"
  using missing_broker_forces_server_init [of env_data_kept demo_config "[]" "[]" "''0.9''" "[]"
      "snd (Run env_data_kept demo_config [] ''0.9'' [])"]
  by (simp add: data_kept_run) (simp add: fileExists_def env_data_kept_def demo_env_def demo_config_def)

lemma Run_flags_JoinURLs: "Run_flags E (c\<lparr>JoinURLs := x\<rparr>) = Run_flags E c"
  by (simp add: Run_flags_def cong: if_cong)

lemma Run_listen_JoinURLs: "Run_listen E (c\<lparr>JoinURLs := x\<rparr>) = Run_listen E c"
  by (simp add: Run_listen_def cong: if_cong)

lemma Run_policies_JoinURLs: "Run_policies E (c\<lparr>JoinURLs := x\<rparr>) = Run_policies E c"
  by (simp add: Run_policies_def cong: if_cong)

lemma Run_services_JoinURLs: "Run_services E (c\<lparr>JoinURLs := x\<rparr>) = Run_services E c"
  by (simp add: Run_services_def cong: if_cong)

lemma Run_reporting_JoinURLs: "Run_reporting E (c\<lparr>JoinURLs := x\<rparr>) = Run_reporting E c"
  by (simp add: Run_reporting_def cong: if_cong)

lemma openServer_JoinURLs:
  "openServer E (c\<lparr>JoinURLs := x\<rparr>) a b urls = openServer E c a b urls"
  by (simp add: openServer_def cong: if_cong)

text \<open>
  C8. With a non-empty \<open>-join\<close> flag, \<open>Run\<close> does not depend on the join URLs of the
  configuration: replacing them by anything gives the same run. With an empty flag, the
  run is the one that the configuration's join URLs, given as the flag, would produce.
\<close>
theorem join_flag_overrides_config:
  "(join \<noteq> [] \<longrightarrow> Run E (c\<lparr>JoinURLs := x\<rparr>) join v = Run E c join v) \<and>
   Run E c [] v = Run E c (JoinURLs c) v"
  by (simp add: Run_def Run_flags_JoinURLs Run_listen_JoinURLs Run_policies_JoinURLs
        Run_services_JoinURLs Run_reporting_JoinURLs openServer_JoinURLs)

theorem join_flag_overrides_config_witness:
  "Run demo_env (demo_config\<lparr>JoinURLs := ''http://other''\<rparr>) ''http://a'' ''0.9'' =
     Run demo_env demo_config ''http://a'' ''0.9'' \<and>
   ClientSetURLs [''http://a''] \<in>
     set (snd (Run demo_env (demo_config\<lparr>JoinURLs := ''http://other''\<rparr>) ''http://a'' ''0.9'' []))"
  using join_flag_overrides_config [where join = "''http://a''" and E = demo_env
      and c = demo_config and x = "''http://other''" and v = "''0.9''"]
  by (simp add: run_defs demo_env_def demo_config_def proc_simps)

subsection \<open>parseConfig and the hostname\<close>

text \<open>
  C9. With an empty path, \<open>parseConfig\<close> does not look at the hostname argument: its
  result is the same for every hostname, and when \<open>NewConfig\<close> succeeds it is the default
  configuration as \<open>NewConfig\<close> made it. With a non-empty path that parses, the result is
  the parsed configuration, with \<open>Hostname\<close> replaced exactly when the hostname argument
  is not empty.
\<close>

theorem parseConfig_hostname:
  "parseConfig E [] hostname = parseConfig E [] hostname' \<and>
   (\<forall>c. NewConfig E = Inr c \<longrightarrow> parseConfig E [] hostname = Inr c) \<and>
   (\<forall>c. path \<noteq> [] \<and> ParseConfigFile E path = Inr c \<longrightarrow>
      parseConfig E path hostname =
        Inr (if hostname = [] then c else c\<lparr>Hostname := hostname\<rparr>))"
  by (simp add: parseConfig_def)

theorem parseConfig_hostname_witness:
  "parseConfig demo_env [] ''node1'' = Inr demo_config \<and>
   parseConfig demo_env ''influxdb.conf'' ''node1'' =
     Inr (demo_config\<lparr>Hostname := ''node1''\<rparr>) \<and>
   parseConfig demo_env ''influxdb.conf'' [] = Inr demo_config"
  using parseConfig_hostname [of demo_env "''node1''" "''node1''" "''influxdb.conf''"]
        parseConfig_hostname [of demo_env "[]" "[]" "''influxdb.conf''"]
  by (simp add: demo_env_def)

section \<open>Election safety\<close>

lemma election_inv_init: "election_inv (initial n)"
  by (simp add: election_inv_def votes_recorded_def one_vote_def elected_by_majority_def
        leaders_elected_def initial_def)

lemma filter_length_mono:
  "\<forall>x\<in>set xs. P x \<longrightarrow> Q x \<Longrightarrow> length (filter P xs) \<le> length (filter Q xs)"
  by (induction xs) auto

lemma filter_length_disjoint:
  "\<forall>x\<in>set xs. \<not> (P x \<and> Q x) \<Longrightarrow> length (filter P xs) + length (filter Q xs) \<le> length xs"
  by (induction xs) auto

lemma majority_mono:
  assumes "majority s t c" "npeers s' = npeers s" "set (granted s) \<subseteq> set (granted s')"
  shows "majority s' t c"
proof -
  have "length (filter (\<lambda>v. (t, v, c) \<in> set (granted s)) [0..<npeers s]) \<le>
        length (filter (\<lambda>v. (t, v, c) \<in> set (granted s')) [0..<npeers s])"
    using assms(3) by (intro filter_length_mono) auto
  with assms(1,2) show ?thesis by (simp add: majority_def)
qed

lemma majorities_meet:
  assumes "majority s t a" "majority s t b"
  shows "\<exists>v. (t, v, a) \<in> set (granted s) \<and> (t, v, b) \<in> set (granted s)"
proof (rule ccontr)
  assume "\<not> ?thesis"
  then have "\<forall>v\<in>set [0..<npeers s]. \<not> ((t, v, a) \<in> set (granted s) \<and> (t, v, b) \<in> set (granted s))"
    by blast
  from filter_length_disjoint[OF this] assms show False
    by (simp add: majority_def)
qed

lemma npeers_step: "npeers (step s a) = npeers s"
  by (cases a) (simp_all add: Let_def)

lemma granted_step: "set (granted s) \<subseteq> set (granted (step s a))"
  by (cases a) (auto simp: Let_def)

lemma votes_recordedD:
  "votes_recorded s \<Longrightarrow> (t, v, c) \<in> set (granted s) \<Longrightarrow>
     v < npeers s \<and> t \<le> currentTerm (node s v) \<and>
     (t = currentTerm (node s v) \<longrightarrow> votedFor (node s v) = Some c)"
  by (simp add: votes_recorded_def)

lemma votes_recorded_step:
  assumes "votes_recorded s"
  shows "votes_recorded (step s a)"
proof (cases a)
  case (Timeout v)
  then show ?thesis
    by (auto simp: votes_recorded_def Let_def dest: votes_recordedD[OF assms])
next
  case (RequestVote v t c li lt)
  then show ?thesis
    by (auto simp: votes_recorded_def Let_def see_term_def dest: votes_recordedD[OF assms])
next
  case (Elected c)
  then show ?thesis by (auto simp: votes_recorded_def Let_def dest: votes_recordedD[OF assms])
next
  case (AppendEntries v t pli plt es)
  then show ?thesis
    by (auto simp: votes_recorded_def Let_def see_term_def dest: votes_recordedD[OF assms])
next
  case (Propose l)
  then show ?thesis by (auto simp: votes_recorded_def Let_def dest: votes_recordedD[OF assms])
next
  case (Crash v)
  then show ?thesis by (auto simp: votes_recorded_def dest: votes_recordedD[OF assms])
next
  case (Initialize v)
  then show ?thesis by (auto simp: votes_recorded_def Let_def dest: votes_recordedD[OF assms])
qed

lemma one_voteD:
  "one_vote s \<Longrightarrow> (t, v, c) \<in> set (granted s) \<Longrightarrow> (t, v, c') \<in> set (granted s) \<Longrightarrow> c = c'"
  unfolding one_vote_def by blast

lemma one_vote_step:
  assumes "votes_recorded s" "one_vote s"
  shows "one_vote (step s a)"
proof (cases a)
  case (Timeout v)
  then show ?thesis
    by (auto simp: one_vote_def Let_def dest: votes_recordedD[OF assms(1)] one_voteD[OF assms(2)])
next
  case (RequestVote v t c li lt)
  then show ?thesis
    by (auto simp: one_vote_def Let_def see_term_def
          dest: votes_recordedD[OF assms(1)] one_voteD[OF assms(2)])
next
  case (Elected c)
  then show ?thesis by (auto simp: one_vote_def Let_def dest: one_voteD[OF assms(2)])
next
  case (AppendEntries v t pli plt es)
  then show ?thesis by (auto simp: one_vote_def Let_def dest: one_voteD[OF assms(2)])
next
  case (Propose l)
  then show ?thesis by (auto simp: one_vote_def Let_def dest: one_voteD[OF assms(2)])
next
  case (Crash v)
  then show ?thesis by (auto simp: one_vote_def dest: one_voteD[OF assms(2)])
next
  case (Initialize v)
  then show ?thesis
    by (auto simp: one_vote_def Let_def dest: votes_recordedD[OF assms(1)] one_voteD[OF assms(2)])
qed

lemma elected_step:
  assumes "(t, c) \<in> set (elected (step s a))"
  shows "(t, c) \<in> set (elected s) \<or>
         (a = Elected c \<and> majority s t c) \<or>
         (a = Initialize c \<and> t = 1 \<and> npeers s = 1 \<and> c = 0)"
  using assms by (cases a) (auto simp: Let_def split: if_splits)

lemma majority_Initialize:
  assumes "npeers s = 1"
  shows "majority (step s (Initialize 0)) 1 0 \<or> step s (Initialize 0) = s"
  using assms by (auto simp: majority_def Let_def)

lemma elected_by_majority_step:
  assumes "elected_by_majority s"
  shows "elected_by_majority (step s a)"
  unfolding elected_by_majority_def
proof (intro allI impI)
  fix t c assume e: "(t, c) \<in> set (elected (step s a))"
  from elected_step[OF e] consider
      (old) "(t, c) \<in> set (elected s)"
    | (won) "a = Elected c" "majority s t c"
    | (boot) "a = Initialize c" "t = 1" "npeers s = 1" "c = 0" "(t, c) \<notin> set (elected s)"
    by blast
  then show "majority (step s a) t c"
  proof cases
    case old
    with assms have "majority s t c" by (simp add: elected_by_majority_def)
    then show ?thesis by (rule majority_mono) (simp_all add: npeers_step granted_step)
  next
    case won
    from won(2) show ?thesis by (rule majority_mono) (simp_all add: npeers_step granted_step)
  next
    case boot
    from boot(5) e have "step s a \<noteq> s" by auto
    with majority_Initialize[OF boot(3)] boot show ?thesis by simp
  qed
qed

lemma leaders_elected_step:
  assumes "leaders_elected s"
  shows "leaders_elected (step s a)"
proof (cases a)
  case (Timeout v)
  with assms show ?thesis by (auto simp: leaders_elected_def Let_def)
next
  case (RequestVote v t c li lt)
  with assms show ?thesis by (auto simp: leaders_elected_def Let_def see_term_def)
next
  case (Elected c)
  with assms show ?thesis by (auto simp: leaders_elected_def Let_def)
next
  case (AppendEntries v t pli plt es)
  with assms show ?thesis by (auto simp: leaders_elected_def Let_def see_term_def)
next
  case (Propose l)
  with assms show ?thesis by (auto simp: leaders_elected_def Let_def)
next
  case (Crash v)
  with assms show ?thesis by (auto simp: leaders_elected_def)
next
  case (Initialize v)
  with assms show ?thesis by (auto simp: leaders_elected_def Let_def)
qed

lemma election_inv_step: "election_inv s \<Longrightarrow> election_inv (step s a)"
  by (simp add: election_inv_def votes_recorded_step one_vote_step elected_by_majority_step
        leaders_elected_step)

lemma election_inv_foldl: "election_inv s \<Longrightarrow> election_inv (foldl step s acts)"
  by (induction acts arbitrary: s) (simp_all add: election_inv_step)

lemma election_inv_execute: "election_inv (execute n acts)"
  unfolding execute_def by (rule election_inv_foldl) (rule election_inv_init)

lemma npeers_foldl: "npeers (foldl step s acts) = npeers s"
  by (induction acts arbitrary: s) (simp_all add: npeers_step)

lemma npeers_execute: "npeers (execute n acts) = n"
  by (simp add: execute_def npeers_foldl initial_def)

lemma elected_unique:
  assumes "election_inv s" "(t, a) \<in> set (elected s)" "(t, b) \<in> set (elected s)"
  shows "a = b"
proof -
  from assms have "majority s t a" "majority s t b"
    by (simp_all add: election_inv_def elected_by_majority_def)
  from majorities_meet[OF this] obtain v
    where "(t, v, a) \<in> set (granted s)" "(t, v, b) \<in> set (granted s)" by blast
  with assms(1) show ?thesis by (auto simp: election_inv_def dest: one_voteD)
qed

lemma distinct_all_equal:
  assumes "distinct xs" "\<forall>a\<in>set xs. \<forall>b\<in>set xs. a = b"
  shows "length xs \<le> 1"
proof (cases xs)
  case Nil
  then show ?thesis by simp
next
  case (Cons a list)
  have "list = []"
  proof (rule ccontr)
    assume "list \<noteq> []"
    then obtain b where b: "b \<in> set list" by (cases list) auto
    with Cons assms(2) have "a = b" by simp
    with b Cons assms(1) show False by simp
  qed
  with Cons show ?thesis by simp
qed

text \<open>
  C5. Election safety, on the model of the election made from the specification: in every
  run of a cluster of \<open>n\<close> peers, whatever the sequence of timeouts, requests, failures
  and other events, no two different nodes have won the election of the same term, and in
  every state at most one peer is Leader of a given term.
\<close>

theorem election_safety:
  "(\<forall>t a b. (t, a) \<in> set (elected (execute n acts)) \<and> (t, b) \<in> set (elected (execute n acts))
       \<longrightarrow> a = b) \<and>
   (\<forall>t. length (leaders (execute n acts) t) \<le> 1)"
proof (intro conjI allI impI)
  fix t a b
  assume "(t, a) \<in> set (elected (execute n acts)) \<and> (t, b) \<in> set (elected (execute n acts))"
  then show "a = b" using elected_unique[OF election_inv_execute] by blast
next
  fix t
  let ?s = "execute n acts"
  have d: "distinct (leaders ?s t)" by (simp add: leaders_def)
  have "\<forall>a\<in>set (leaders ?s t). \<forall>b\<in>set (leaders ?s t). a = b"
  proof (intro ballI)
    fix a b assume "a \<in> set (leaders ?s t)" "b \<in> set (leaders ?s t)"
    then have "(t, a) \<in> set (elected ?s)" "(t, b) \<in> set (elected ?s)"
      using election_inv_execute[of n acts]
      by (auto simp: leaders_def election_inv_def leaders_elected_def)
    then show "a = b" by (rule elected_unique[OF election_inv_execute])
  qed
  with d show "length (leaders ?s t) \<le> 1" by (rule distinct_all_equal)
qed

lemma demo_election_elected: "elected (execute 3 demo_election) = [(2, 2), (1, 0)]"
  by code_simp

lemma demo_election_leaders2: "leaders (execute 3 demo_election) 2 = [2]"
  by code_simp

lemma demo_election_leaders1: "leaders (execute 3 demo_election) 1 = []"
  by code_simp

theorem election_safety_witness:
  "elected (execute 3 demo_election) = [(2, 2), (1, 0)] \<and>
   leaders (execute 3 demo_election) 2 = [2] \<and>
   leaders (execute 3 demo_election) 1 = []"
  using election_safety [of 3 demo_election] demo_election_elected demo_election_leaders2
    demo_election_leaders1
  by blast

text \<open>\<open>initialize()\<close> on a one-node cluster: leader of term 1, empty log.\<close>

lemma initialize_one_node:
  "node (execute 1 [Initialize 0]) 0 =
     \<lparr>role = Leader, currentTerm = 1, votedFor = Some 0, log = []\<rparr> \<and>
   leaders (execute 1 [Initialize 0]) 1 = [0]"
  by code_simp

end
